theory Spec2Isabelle
  imports Complex_Main "HOL-Library.AList" "HOL-Library.Sublist"
begin

section \<open>Censored values in census tables: a model of \<open>utils_censo.py\<close>\<close>

text \<open>
  The module treats the two special codes of the INEGI census tables: \<open>-6\<close> (not
  applicable) and \<open>-8\<close> (suppressed for confidentiality). Its five functions work on a
  pandas data frame; this theory embeds the part of the frame they use.

  \<^item> A cell is a number, the missing marker NaN, a text or a boolean. Numbers are exact
    rationals. A numeric column does not say whether pandas holds it as int64 or as
    float64: where the source assigns into a column, whether pandas stores the value is a
    parameter of the model (see \<open>asignar\<close>). Where the source divides, the rounding of the
    float64 quotient is a parameter too (see \<open>truediv\<close>).
  \<^item> A column carries the class of its dtype as \<open>select_dtypes\<close> sees it: \<open>Number\<close>
    (selected by \<open>include="number"\<close>), \<open>Boolean\<close> or \<open>Object\<close>. An object column holds
    arbitrary Python objects, numbers among them.
  \<^item> A frame is its row count \<open>len(df)\<close> and the list of its labelled columns in order.
    The labels of a frame are distinct: for a repeated label \<open>df[c]\<close> is a frame, not a
    column, and the tests of the source raise; \<open>get_col\<close> is \<open>df[c]\<close> for frames with
    distinct labels.
  \<^item> Frames live in a store; a function that builds its result by writing to a copy
    receives a reference, and \<open>df.copy()\<close> allocates. \<open>diagnostico_censurados\<close> only
    reads its argument and is a function of the frame.
  \<^item> Exceptions are values: a call returns \<open>Inl\<close> of the error or \<open>Inr\<close> of the reference
    to its result, together with the store it leaves.
  \<^item> The lines the functions print, and the counters \<open>n_celdas\<close> and \<open>n_flags\<close> that
    only feed those lines, are left out.
\<close>

subsection \<open>Cells, columns, frames\<close>

datatype cell = Num rat | NaN | Str string | Flag bool

datatype dtype = Number | Boolean | Object

type_synonym column = "dtype \<times> cell list"

record table =
  nrows :: nat
  columns :: "(string \<times> column) list"

datatype error = ValueError | KeyError | TypeError | ZeroDivisionError | AttributeError

text \<open>A float argument (\<open>reemplazo\<close>, \<open>valor_bajo\<close>): a number, or \<open>None\<close> for NaN.\<close>

fun float_cell :: "rat option \<Rightarrow> cell" where
  "float_cell (Some x) = Num x"
| "float_cell None = NaN"

text \<open>
  \<open>x == s\<close> for a number \<open>s\<close>: NaN and a text equal no number, and Python's \<open>True\<close> and
  \<open>False\<close> equal \<open>1\<close> and \<open>0\<close>.
\<close>

fun eq_num :: "rat \<Rightarrow> cell \<Rightarrow> bool" where
  "eq_num s (Num x) = (x = s)"
| "eq_num s NaN = False"
| "eq_num s (Str t) = False"
| "eq_num s (Flag b) = ((if b then 1 else 0) = s)"

text \<open>\<open>(col == s).any()\<close>\<close>

definition any_eq :: "rat \<Rightarrow> column \<Rightarrow> bool" where
  "any_eq s col = list_ex (eq_num s) (snd col)"

text \<open>\<open>df[c]\<close> (\<open>None\<close> where pandas raises \<open>KeyError\<close>) and \<open>df[c] = col\<close>: an existing
  label keeps its place, a new one is appended.\<close>

definition get_col :: "table \<Rightarrow> string \<Rightarrow> column option" where
  "get_col t c = map_of (columns t) c"

definition set_col :: "table \<Rightarrow> string \<Rightarrow> column \<Rightarrow> table" where
  "set_col t c col = t\<lparr>columns := AList.update c col (columns t)\<rparr>"

text \<open>\<open>df.select_dtypes(include="number").columns\<close>\<close>

definition select_number :: "table \<Rightarrow> string list" where
  "select_number t = map fst (filter (\<lambda>p. fst (snd p) = Number) (columns t))"

text \<open>\<open>cols if cols is not None else cols_num\<close>\<close>

definition cols_proc :: "table \<Rightarrow> string list option \<Rightarrow> string list" where
  "cols_proc t cols = (case cols of Some cs \<Rightarrow> cs | None \<Rightarrow> select_number t)"

text \<open>
  \<open>[c for c in cols_proc if (resultado[c] == s).any()]\<close>: the comprehension reads every
  name of the selection, and the first one that is no label raises.
\<close>

fun cols_con :: "rat \<Rightarrow> table \<Rightarrow> string list \<Rightarrow> error + string list" where
  "cols_con s t [] = Inr []"
| "cols_con s t (c # cs) =
     (case get_col t c of
        None \<Rightarrow> Inl KeyError
      | Some col \<Rightarrow>
          (case cols_con s t cs of
             Inl e \<Rightarrow> Inl e
           | Inr r \<Rightarrow> Inr (if any_eq s col then c # r else r)))"

subsection \<open>The store\<close>

type_synonym ref = nat

type_synonym heap = "table list"

text \<open>\<open>df.copy()\<close>: a new frame with the same contents, at a fresh address.\<close>

definition df_copy :: "heap \<Rightarrow> ref \<Rightarrow> ref \<times> heap" where
  "df_copy h df = (length h, h @ [h ! df])"

subsection \<open>Rounding and statistics\<close>

text \<open>Rounding to the nearest integer, a tie to the even one, as Python and numpy do.\<close>

definition round_half_even :: "rat \<Rightarrow> int" where
  "round_half_even x =
     (let f = \<lfloor>x\<rfloor>; d = x - of_int f
      in if d < 1 / 2 then f else if 1 / 2 < d then f + 1 else if even f then f else f + 1)"

text \<open>\<open>round(x, 1)\<close>\<close>

definition round1 :: "rat \<Rightarrow> rat" where
  "round1 x = of_int (round_half_even (x * 10)) / 10"

definition median :: "rat list \<Rightarrow> rat" where
  "median xs =
     (let s = sort xs; n = length s
      in if odd n then s ! (n div 2) else (s ! (n div 2 - 1) + s ! (n div 2)) / 2)"

definition mean :: "rat list \<Rightarrow> rat" where
  "mean xs = sum_list xs / of_nat (length xs)"

subsection \<open>\<open>tratar_no_aplica\<close>\<close>

text \<open>\<open>resultado[c].replace(-6, reemplazo)\<close>\<close>

definition replace_6 :: "rat option \<Rightarrow> column \<Rightarrow> column" where
  "replace_6 reemplazo col =
     (fst col, map (\<lambda>v. if eq_num (- 6) v then float_cell reemplazo else v) (snd col))"

text \<open>
  Each loop below runs on the frame \<open>resultado\<close> and returns it as the loop leaves it,
  with the exception that ended the loop, if any.
\<close>

fun no_aplica_loop :: "rat option \<Rightarrow> table \<Rightarrow> string list \<Rightarrow> error option \<times> table" where
  "no_aplica_loop reemplazo t [] = (None, t)"
| "no_aplica_loop reemplazo t (c # cs) =
     (case get_col t c of
        None \<Rightarrow> (Some KeyError, t)
      | Some col \<Rightarrow> no_aplica_loop reemplazo (set_col t c (replace_6 reemplazo col)) cs)"

text \<open>What the body does to the copy, from its first line after \<open>df.copy()\<close>.\<close>

definition no_aplica_frame ::
  "table \<Rightarrow> string list option \<Rightarrow> rat option \<Rightarrow> error option \<times> table" where
  "no_aplica_frame resultado cols reemplazo =
     (case cols_con (- 6) resultado (cols_proc resultado cols) of
        Inl e \<Rightarrow> (Some e, resultado)
      | Inr cols_con_6 \<Rightarrow> no_aplica_loop reemplazo resultado cols_con_6)"

text \<open>
  The call: the copy is allocated, the body works on the copy, and the reference to the
  copy is returned, or the exception is raised.
\<close>

definition tratar_no_aplica ::
  "heap \<Rightarrow> ref \<Rightarrow> string list option \<Rightarrow> rat option \<Rightarrow> (error + ref) \<times> heap" where
  "tratar_no_aplica h df cols reemplazo =
     (case df_copy h df of (resultado, h1) \<Rightarrow>
        (case no_aplica_frame (h1 ! resultado) cols reemplazo of (err, t) \<Rightarrow>
           ((case err of Some e \<Rightarrow> Inl e | None \<Rightarrow> Inr resultado), h1[resultado := t])))"

subsection \<open>\<open>tratar_confidencial\<close>\<close>

definition METODOS_CONF :: "string list" where
  "METODOS_CONF = [''nan'', ''cero'', ''mediana'', ''media'', ''valor_bajo'']"

text \<open>\<open>x >= 0\<close>: false for NaN, true for a boolean, and a \<open>TypeError\<close> for a text.\<close>

fun ge0 :: "cell \<Rightarrow> error + bool" where
  "ge0 (Num x) = Inr (0 \<le> x)"
| "ge0 NaN = Inr False"
| "ge0 (Flag b) = Inr True"
| "ge0 (Str t) = Inl TypeError"

text \<open>\<open>resultado[c] >= 0\<close>, on the whole column.\<close>

fun ge0_col :: "cell list \<Rightarrow> error + bool list" where
  "ge0_col [] = Inr []"
| "ge0_col (v # vs) =
     (case ge0 v of
        Inl e \<Rightarrow> Inl e
      | Inr b \<Rightarrow> (case ge0_col vs of Inl e \<Rightarrow> Inl e | Inr bs \<Rightarrow> Inr (b # bs)))"

text \<open>\<open>resultado.loc[~mascara & (resultado[c] >= 0), c]\<close>\<close>

definition valores_validos :: "bool list \<Rightarrow> cell list \<Rightarrow> error + cell list" where
  "valores_validos mascara cells =
     (case ge0_col cells of
        Inl e \<Rightarrow> Inl e
      | Inr ge \<Rightarrow>
          Inr (map fst (filter (\<lambda>p. snd p) (zip cells (map2 (\<lambda>m g. \<not> m \<and> g) mascara ge)))))"

text \<open>The number a statistic reads in a cell that passed the filter.\<close>

fun valor :: "cell \<Rightarrow> rat" where
  "valor (Num x) = x"
| "valor (Flag b) = (if b then 1 else 0)"
| "valor NaN = 0"
| "valor (Str t) = 0"

text \<open>\<open>resultado.loc[mascara, c] = v\<close>\<close>

definition loc_set :: "bool list \<Rightarrow> cell \<Rightarrow> cell list \<Rightarrow> cell list" where
  "loc_set mascara v cells = map2 (\<lambda>m x. if m then v else x) mascara cells"

text \<open>
  \<open>resultado.loc[mascara, c] = v\<close> as pandas carries it out. pandas stores the value when
  the dtype of the column can hold it. When it cannot (\<open>7.5\<close> into an int64 column),
  pandas 2 changes the dtype of the column to one that can and stores the value, and
  pandas 3 raises \<open>TypeError\<close>. The source fixes neither the version of pandas nor the
  dtype of the columns it is given, and a column of the model does not tell int64 from
  float64, so the answer is a parameter: \<open>admite mascara col v\<close> says that pandas carries
  out the assignment of \<open>v\<close> to the rows \<open>mascara\<close> of the column \<open>col\<close>. Every property
  below is proved for every such parameter.
\<close>

type_synonym admision = "bool list \<Rightarrow> column \<Rightarrow> cell \<Rightarrow> bool"

definition asignar ::
  "admision \<Rightarrow> bool list \<Rightarrow> cell \<Rightarrow> column \<Rightarrow> error + column" where
  "asignar admite mascara v col =
     (if admite mascara col v then Inr (fst col, loc_set mascara v (snd col))
      else Inl TypeError)"

text \<open>
  Two answers. \<open>admite_siempre\<close>: every assignment is carried out, as on a float64 or an
  object column, and on any column under pandas 2. \<open>admite_entero\<close>: an int64 column
  under pandas 3, where an assignment to a selected row is carried out for a number
  without fractional part (the column stays int64) and for NaN (the column becomes
  float64), and refused for any other value.
\<close>

definition admite_siempre :: admision where
  "admite_siempre mascara col v = True"

definition admite_entero :: admision where
  "admite_entero mascara col v =
     (case v of Num x \<Rightarrow> of_int \<lfloor>x\<rfloor> = x | NaN \<Rightarrow> True | Str s \<Rightarrow> False | Flag b \<Rightarrow> False)"

text \<open>The body of the loop \<open>for c in cols_con_8\<close>, on the column \<open>resultado[c]\<close>.\<close>

definition imputar ::
  "admision \<Rightarrow> string \<Rightarrow> rat option \<Rightarrow> column \<Rightarrow> error + column" where
  "imputar admite metodo valor_bajo col =
     (let cells = snd col; mascara = map (eq_num (- 8)) cells
      in if metodo = ''nan'' then asignar admite mascara NaN col
         else if metodo = ''cero'' then asignar admite mascara (Num 0) col
         else if metodo = ''mediana'' then
           (case valores_validos mascara cells of
              Inl e \<Rightarrow> Inl e
            | Inr vv \<Rightarrow>
                (let imputacion = (if 0 < length vv then median (map valor vv) else 0)
                 in asignar admite mascara (Num imputacion) col))
         else if metodo = ''media'' then
           (case valores_validos mascara cells of
              Inl e \<Rightarrow> Inl e
            | Inr vv \<Rightarrow>
                (let imputacion = (if 0 < length vv then mean (map valor vv) else 0)
                 in asignar admite mascara (Num (round1 imputacion)) col))
         else if metodo = ''valor_bajo'' then
           asignar admite mascara (float_cell valor_bajo) col
         else Inr col)"

fun confidencial_loop ::
  "admision \<Rightarrow> string \<Rightarrow> rat option \<Rightarrow> table \<Rightarrow> string list
     \<Rightarrow> error option \<times> table" where
  "confidencial_loop admite metodo valor_bajo t [] = (None, t)"
| "confidencial_loop admite metodo valor_bajo t (c # cs) =
     (case get_col t c of
        None \<Rightarrow> (Some KeyError, t)
      | Some col \<Rightarrow>
          (case imputar admite metodo valor_bajo col of
             Inl e \<Rightarrow> (Some e, t)
           | Inr col' \<Rightarrow> confidencial_loop admite metodo valor_bajo (set_col t c col') cs))"

definition confidencial_frame ::
  "admision \<Rightarrow> table \<Rightarrow> string list option \<Rightarrow> string \<Rightarrow> rat option
     \<Rightarrow> error option \<times> table" where
  "confidencial_frame admite resultado cols metodo valor_bajo =
     (case cols_con (- 8) resultado (cols_proc resultado cols) of
        Inl e \<Rightarrow> (Some e, resultado)
      | Inr cols_con_8 \<Rightarrow> confidencial_loop admite metodo valor_bajo resultado cols_con_8)"

text \<open>The method is checked first, before the frame is copied or read.\<close>

definition tratar_confidencial ::
  "admision \<Rightarrow> heap \<Rightarrow> ref \<Rightarrow> string list option \<Rightarrow> string \<Rightarrow> rat option
     \<Rightarrow> (error + ref) \<times> heap" where
  "tratar_confidencial admite h df cols metodo valor_bajo =
     (if metodo \<notin> set METODOS_CONF then (Inl ValueError, h)
      else
        (case df_copy h df of (resultado, h1) \<Rightarrow>
           (case confidencial_frame admite (h1 ! resultado) cols metodo valor_bajo of (err, t) \<Rightarrow>
              ((case err of Some e \<Rightarrow> Inl e | None \<Rightarrow> Inr resultado), h1[resultado := t]))))"

subsection \<open>\<open>tratar_censurados\<close>\<close>

definition tratar_censurados ::
  "admision \<Rightarrow> heap \<Rightarrow> ref \<Rightarrow> string list option \<Rightarrow> string \<Rightarrow> rat option
     \<Rightarrow> rat option \<Rightarrow> (error + ref) \<times> heap" where
  "tratar_censurados admite h df cols metodo_conf valor_bajo reemplazo_no_aplica =
     (case tratar_no_aplica h df cols reemplazo_no_aplica of
        (Inl e, h1) \<Rightarrow> (Inl e, h1)
      | (Inr resultado, h1) \<Rightarrow>
          tratar_confidencial admite h1 resultado cols metodo_conf valor_bajo)"

subsection \<open>\<open>marcar_censurados\<close>\<close>

text \<open>\<open>resultado[c] == s\<close> as a boolean column.\<close>

definition flag_col :: "rat \<Rightarrow> column \<Rightarrow> column" where
  "flag_col s col = (Boolean, map (\<lambda>v. Flag (eq_num s v)) (snd col))"

text \<open>
  One round of the loop \<open>for c in cols_proc\<close>. Both tests read the column first; the
  second assignment reads \<open>resultado[c]\<close> again, after the first one.
\<close>

definition marcar_paso ::
  "string \<Rightarrow> string \<Rightarrow> table \<Rightarrow> string \<Rightarrow> error option \<times> table" where
  "marcar_paso sufijo_6 sufijo_8 t c =
     (case get_col t c of
        None \<Rightarrow> (Some KeyError, t)
      | Some col \<Rightarrow>
          (let tiene_6 = any_eq (- 6) col;
               tiene_8 = any_eq (- 8) col;
               t1 = (if tiene_6 then set_col t (c @ sufijo_6) (flag_col (- 6) col) else t)
           in if tiene_8 then
                (case get_col t1 c of
                   None \<Rightarrow> (Some KeyError, t1)
                 | Some col1 \<Rightarrow> (None, set_col t1 (c @ sufijo_8) (flag_col (- 8) col1)))
              else (None, t1)))"

fun marcar_loop ::
  "string \<Rightarrow> string \<Rightarrow> table \<Rightarrow> string list \<Rightarrow> error option \<times> table" where
  "marcar_loop sufijo_6 sufijo_8 t [] = (None, t)"
| "marcar_loop sufijo_6 sufijo_8 t (c # cs) =
     (case marcar_paso sufijo_6 sufijo_8 t c of
        (Some e, t') \<Rightarrow> (Some e, t')
      | (None, t') \<Rightarrow> marcar_loop sufijo_6 sufijo_8 t' cs)"

definition marcar_frame ::
  "table \<Rightarrow> string list option \<Rightarrow> string \<Rightarrow> string \<Rightarrow> error option \<times> table" where
  "marcar_frame resultado cols sufijo_6 sufijo_8 =
     marcar_loop sufijo_6 sufijo_8 resultado (cols_proc resultado cols)"

definition marcar_censurados ::
  "heap \<Rightarrow> ref \<Rightarrow> string list option \<Rightarrow> string \<Rightarrow> string \<Rightarrow> (error + ref) \<times> heap" where
  "marcar_censurados h df cols sufijo_6 sufijo_8 =
     (case df_copy h df of (resultado, h1) \<Rightarrow>
        (case marcar_frame (h1 ! resultado) cols sufijo_6 sufijo_8 of (err, t) \<Rightarrow>
           ((case err of Some e \<Rightarrow> Inl e | None \<Rightarrow> Inr resultado), h1[resultado := t])))"

subsection \<open>\<open>diagnostico_censurados\<close>\<close>







subsection \<open>The three resolvers\<close>

text \<open>
  The functions that replace codes, under one name, with the codes each one treats. A
  call takes the arguments of all three and passes on the ones its function has.
\<close>

datatype resolver = NoAplica | Confidencial | Censurados

fun aplicar ::
  "admision \<Rightarrow> resolver \<Rightarrow> heap \<Rightarrow> ref \<Rightarrow> string list option \<Rightarrow> string
     \<Rightarrow> rat option \<Rightarrow> rat option \<Rightarrow> (error + ref) \<times> heap" where
  "aplicar admite NoAplica h df cols metodo valor_bajo reemplazo =
     tratar_no_aplica h df cols reemplazo"
| "aplicar admite Confidencial h df cols metodo valor_bajo reemplazo =
     tratar_confidencial admite h df cols metodo valor_bajo"
| "aplicar admite Censurados h df cols metodo valor_bajo reemplazo =
     tratar_censurados admite h df cols metodo valor_bajo reemplazo"

fun codigos :: "resolver \<Rightarrow> rat list" where
  "codigos NoAplica = [- 6]"
| "codigos Confidencial = [- 8]"
| "codigos Censurados = [- 6, - 8]"

subsection \<open>What a caller observes\<close>

text \<open>The frame a call returns, or the exception it raises.\<close>

definition returned :: "(error + ref) \<times> heap \<Rightarrow> error + table" where
  "returned out = (case fst out of Inl e \<Rightarrow> Inl e | Inr r \<Rightarrow> Inr (snd out ! r))"

definition labels :: "table \<Rightarrow> string list" where
  "labels t = map fst (columns t)"

text \<open>
  \<open>frame_kept S t t'\<close>: the frame \<open>t'\<close> has the row count of \<open>t\<close> and the same labels in
  the same order; each column keeps its dtype class and its length; and each cell keeps
  its value in its row, unless the cell of \<open>t\<close> holds one of the codes of \<open>S\<close>.
\<close>

definition cell_kept :: "rat list \<Rightarrow> cell \<Rightarrow> cell \<Rightarrow> bool" where
  "cell_kept S v v' = (v' = v \<or> list_ex (\<lambda>s. eq_num s v) S)"

definition col_kept :: "rat list \<Rightarrow> column \<Rightarrow> column \<Rightarrow> bool" where
  "col_kept S col col' = (fst col' = fst col \<and> list_all2 (cell_kept S) (snd col) (snd col'))"

definition frame_kept :: "rat list \<Rightarrow> table \<Rightarrow> table \<Rightarrow> bool" where
  "frame_kept S t t' =
     (nrows t' = nrows t \<and>
      list_all2 (\<lambda>p p'. fst p' = fst p \<and> col_kept S (snd p) (snd p')) (columns t) (columns t'))"

subsection \<open>The statistic in the words of the specification\<close>

text \<open>
  The specification computes the mean or the median "over the column's non-sentinel,
  non-negative values only", falls back to \<open>0\<close> "if no such values exist", rounds the mean
  to one decimal and uses the median unrounded. A value is what a cell holds when it is
  neither the missing marker nor a text.
\<close>

fun es_valor :: "cell \<Rightarrow> bool" where
  "es_valor (Num x) = True"
| "es_valor (Flag b) = True"
| "es_valor NaN = False"
| "es_valor (Str t) = False"

definition elegibles_spec :: "cell list \<Rightarrow> rat list" where
  "elegibles_spec cells =
     map valor
       (filter (\<lambda>v. es_valor v \<and> \<not> eq_num (- 6) v \<and> \<not> eq_num (- 8) v \<and> \<not> valor v < 0) cells)"

definition imputacion_spec :: "string \<Rightarrow> cell list \<Rightarrow> rat" where
  "imputacion_spec metodo cells =
     (let e = elegibles_spec cells
      in if e = [] then 0
         else if metodo = ''media'' then round1 (mean e)
         else median e)"

subsection \<open>The flag columns in the words of the specification\<close>

text \<open>
  For a source column the specification appends, for each code the column holds, one
  boolean column named by the source label and the suffix, true exactly where the code
  occurs, the flag of \<open>-6\<close> before the flag of \<open>-8\<close>; a column that holds neither code
  gets none.
\<close>

definition banderas_de :: "string \<Rightarrow> string \<Rightarrow> table \<Rightarrow> string \<Rightarrow> (string \<times> column) list" where
  "banderas_de sufijo_6 sufijo_8 t c =
     (case get_col t c of
        None \<Rightarrow> []
      | Some col \<Rightarrow>
          (if any_eq (- 6) col then [(c @ sufijo_6, flag_col (- 6) col)] else []) @
          (if any_eq (- 8) col then [(c @ sufijo_8, flag_col (- 8) col)] else []))"

text \<open>
  \<open>marca_inv\<close>: every column of \<open>t\<close> is the column of \<open>t0\<close> with that label, or the flag
  of a column of \<open>t0\<close> named in \<open>cs\<close>.
\<close>

definition marca_inv :: "string \<Rightarrow> string \<Rightarrow> table \<Rightarrow> string list \<Rightarrow> table \<Rightarrow> bool" where
  "marca_inv sufijo_6 sufijo_8 t0 cs t =
     (\<forall>n. get_col t n = get_col t0 n \<or>
          (\<exists>c\<in>set cs. \<exists>fc. get_col t n = Some fc \<and> (n, fc) \<in> set (banderas_de sufijo_6 sufijo_8 t0 c)))"

subsection \<open>Frames as pandas builds them\<close>

text \<open>
  In a frame read from a file the labels are distinct, every column has one cell for each
  row, a numeric column holds numbers and NaN, and a boolean column holds booleans.
\<close>

fun conforme :: "column \<Rightarrow> bool" where
  "conforme (Number, cells) = list_all (\<lambda>v. case v of Num x \<Rightarrow> True | NaN \<Rightarrow> True | _ \<Rightarrow> False) cells"
| "conforme (Boolean, cells) = list_all (\<lambda>v. case v of Flag b \<Rightarrow> True | _ \<Rightarrow> False) cells"
| "conforme (Object, cells) = True"

definition wf_table :: "table \<Rightarrow> bool" where
  "wf_table t =
     (distinct (labels t) \<and>
      list_all (\<lambda>p. length (snd (snd p)) = nrows t \<and> conforme (snd p)) (columns t))"

subsection \<open>Example frames\<close>

text \<open>The column \<open>pop = [-6, -8, 10, -6, 5]\<close> of the specification's scenario.\<close>

definition pop_cells :: "cell list" where
  "pop_cells = [Num (- 6), Num (- 8), Num 10, Num (- 6), Num 5]"

definition pop_df :: table where
  "pop_df = \<lparr>nrows = 5, columns = [(''pop'', (Number, pop_cells))]\<rparr>"

text \<open>A frame with one numeric column and no row.\<close>

definition vacio_df :: table where
  "vacio_df = \<lparr>nrows = 0, columns = [(''pop'', (Number, []))]\<rparr>"

text \<open>The same column \<open>pop\<close> beside a second numeric column and a column of texts.\<close>

definition tres_df :: table where
  "tres_df = \<lparr>nrows = 5, columns =
     [(''nom'', (Object, [Str ''a'', Str ''b'', Str ''c'', Str ''d'', Str ''e''])),
      (''pop'', (Number, pop_cells)),
      (''viv'', (Number, [Num 4, Num (- 8), Num (- 8), Num 1, Num (- 6)]))]\<rparr>"

text \<open>A numeric column with a negative value that is no code, and a missing value.\<close>

definition neg_df :: table where
  "neg_df = \<lparr>nrows = 6, columns =
     [(''x'', (Number, [Num 1, Num (- 8), Num 2, Num 2, Num (- 3), NaN]))]\<rparr>"

text \<open>An object column that holds a text beside the code \<open>-6\<close>.\<close>

definition obj_df :: table where
  "obj_df = \<lparr>nrows = 2, columns = [(''clave'', (Object, [Str ''a'', Num (- 6)]))]\<rparr>"

section \<open>Properties\<close>

subsection \<open>Frames\<close>

lemma get_col_set_col: "get_col (set_col t c col) c' = (if c' = c then Some col else get_col t c')"
  by (simp add: get_col_def set_col_def update_conv')

lemma nrows_set_col: "nrows (set_col t c col) = nrows t"
  by (simp add: set_col_def)

lemma set_col_same: "get_col t c = Some col \<Longrightarrow> set_col t c col = t"
  by (simp add: get_col_def set_col_def update_triv)

lemma labels_set_col:
  "labels (set_col t c col) = (if c \<in> set (labels t) then labels t else labels t @ [c])"
  by (simp add: labels_def set_col_def update_keys)

lemma get_col_None_iff: "get_col t c = None \<longleftrightarrow> c \<notin> set (labels t)"
  by (simp add: get_col_def labels_def map_of_eq_None_iff)

subsection \<open>The comprehension\<close>

lemma cols_con_Inr:
  "cols_con s t cs = Inr r \<Longrightarrow>
     r = filter (\<lambda>c. case get_col t c of Some col \<Rightarrow> any_eq s col | None \<Rightarrow> False) cs \<and>
     (\<forall>c\<in>set cs. get_col t c \<noteq> None)"
  by (induction cs arbitrary: r) (auto split: option.splits sum.splits if_splits)

lemma cols_con_Inl:
  "cols_con s t cs = Inl e \<Longrightarrow> e = KeyError \<and> (\<exists>c\<in>set cs. get_col t c = None)"
  by (induction cs) (auto split: option.splits sum.splits if_splits)

lemma cols_con_missing:
  "c \<in> set cs \<Longrightarrow> get_col t c = None \<Longrightarrow> cols_con s t cs = Inl KeyError"
  by (induction cs) (auto split: option.splits sum.splits dest: cols_con_Inl)

lemma cols_con_subset: "cols_con s t cs = Inr r \<Longrightarrow> set r \<subseteq> set cs"
  by (auto dest: cols_con_Inr)

lemma cols_con_mem:
  "cols_con s t cs = Inr r \<Longrightarrow>
     c \<in> set r \<longleftrightarrow> c \<in> set cs \<and> (\<exists>col. get_col t c = Some col \<and> any_eq s col)"
  by (auto dest!: cols_con_Inr split: option.splits)

subsection \<open>Kept\<close>

lemma cell_kept_refl: "cell_kept S v v"
  by (simp add: cell_kept_def)

lemma col_kept_refl: "col_kept S col col"
  by (simp add: col_kept_def list_all2_refl cell_kept_refl)

lemma frame_kept_refl: "frame_kept S t t"
  by (simp add: frame_kept_def list_all2_refl col_kept_refl)

lemma cell_kept_trans:
  "cell_kept S1 u v \<Longrightarrow> cell_kept S2 v w \<Longrightarrow> cell_kept (S1 @ S2) u w"
  by (auto simp: cell_kept_def list_ex_iff)

lemma col_kept_trans:
  "col_kept S1 a b \<Longrightarrow> col_kept S2 b c \<Longrightarrow> col_kept (S1 @ S2) a c"
  unfolding col_kept_def
  by (auto intro: list_all2_trans[where ?P1.0 = "cell_kept S1" and ?P2.0 = "cell_kept S2"] cell_kept_trans)

lemma cell_kept_mono: "set S \<subseteq> set S' \<Longrightarrow> cell_kept S u v \<Longrightarrow> cell_kept S' u v"
  by (auto simp: cell_kept_def list_ex_iff)

lemma col_kept_mono: "set S \<subseteq> set S' \<Longrightarrow> col_kept S a b \<Longrightarrow> col_kept S' a b"
  unfolding col_kept_def by (auto elim!: list_all2_mono intro: cell_kept_mono)

lemma frame_kept_trans:
  assumes "frame_kept S1 t0 t1" "frame_kept S2 t1 t2"
  shows "frame_kept (S1 @ S2) t0 t2"
proof -
  let ?R = "\<lambda>S p p'. fst p' = fst p \<and> col_kept S (snd p) (snd p')"
  have "list_all2 (?R (S1 @ S2)) (columns t0) (columns t2)"
    using assms
    by (auto simp: frame_kept_def
        intro: list_all2_trans[where ?P1.0 = "?R S1" and ?P2.0 = "?R S2"] col_kept_trans)
  then show ?thesis using assms by (simp add: frame_kept_def)
qed

lemma frame_kept_mono: "set S \<subseteq> set S' \<Longrightarrow> frame_kept S a b \<Longrightarrow> frame_kept S' a b"
  unfolding frame_kept_def by (auto elim!: list_all2_mono intro: col_kept_mono)

lemma kept_update_aux:
  "list_all2 (\<lambda>p p'. fst p' = fst p \<and> col_kept S (snd p) (snd p')) al0 al \<Longrightarrow>
   map_of al c = Some col \<Longrightarrow> col_kept S col col' \<Longrightarrow>
   list_all2 (\<lambda>p p'. fst p' = fst p \<and> col_kept (S @ S) (snd p) (snd p')) al0 (AList.update c col' al)"
proof (induction al0 al rule: list_all2_induct)
  case Nil
  then show ?case by simp
next
  case (Cons x xs y ys)
  then show ?case
    by (cases y) (auto split: if_splits intro: col_kept_trans col_kept_mono elim!: list_all2_mono)
qed

lemma frame_kept_set_col:
  assumes "frame_kept S t0 t" "get_col t c = Some col" "col_kept S col col'"
  shows "frame_kept S t0 (set_col t c col')"
proof -
  have "frame_kept (S @ S) t0 (set_col t c col')"
    using assms kept_update_aux[of S "columns t0" "columns t" c col col']
    by (simp add: frame_kept_def get_col_def set_col_def)
  then show ?thesis by (rule frame_kept_mono[rotated]) simp
qed

lemma frame_kept_labels: "frame_kept S t t' \<Longrightarrow> labels t' = labels t"
  unfolding frame_kept_def labels_def
  by (auto simp: list_all2_conv_all_nth intro: nth_equalityI)

lemma kept_select_aux:
  "list_all2 (\<lambda>p p'. fst p' = fst p \<and> col_kept S (snd p) (snd p')) xs ys \<Longrightarrow>
    map fst (filter (\<lambda>p. fst (snd p) = Number) ys) = map fst (filter (\<lambda>p. fst (snd p) = Number) xs)"
  by (induction xs ys rule: list_all2_induct) (auto simp: col_kept_def)

lemma frame_kept_select_number: "frame_kept S t t' \<Longrightarrow> select_number t' = select_number t"
  using kept_select_aux[of S "columns t" "columns t'"]
  by (simp add: frame_kept_def select_number_def)

lemma frame_kept_cols_proc: "frame_kept S t t' \<Longrightarrow> cols_proc t' cols = cols_proc t cols"
  by (simp add: cols_proc_def frame_kept_select_number split: option.splits)

lemma kept_get_aux:
  "list_all2 (\<lambda>p p'. fst p' = fst p \<and> col_kept S (snd p) (snd p')) xs ys \<Longrightarrow>
   (case map_of xs c of None \<Rightarrow> map_of ys c = None
    | Some col \<Rightarrow> (\<exists>col'. map_of ys c = Some col' \<and> col_kept S col col'))"
  by (induction xs ys rule: list_all2_induct) (auto split: option.splits)

lemma frame_kept_get_None: "frame_kept S t t' \<Longrightarrow> get_col t c = None \<Longrightarrow> get_col t' c = None"
  using kept_get_aux[of S "columns t" "columns t'" c]
  by (simp add: frame_kept_def get_col_def)

lemma frame_kept_get_Some:
  "frame_kept S t t' \<Longrightarrow> get_col t c = Some col \<Longrightarrow>
   \<exists>col'. get_col t' c = Some col' \<and> col_kept S col col'"
  using kept_get_aux[of S "columns t" "columns t'" c]
  by (simp add: frame_kept_def get_col_def)

lemma col_kept_no_code:
  assumes "col_kept S col col'" "\<forall>s\<in>set S. \<not> any_eq s col"
  shows "col' = col"
proof -
  have "list_all2 (cell_kept S) xs ys \<Longrightarrow> \<forall>s\<in>set S. \<not> list_ex (eq_num s) xs \<Longrightarrow> ys = xs" for xs ys
    by (induction xs ys rule: list_all2_induct) (auto simp: cell_kept_def list_ex_iff)
  with assms show ?thesis
    by (cases col; cases col') (auto simp: col_kept_def any_eq_def)
qed

lemma frame_kept_no_code:
  "frame_kept S t t' \<Longrightarrow> get_col t c = Some col \<Longrightarrow> \<forall>s\<in>set S. \<not> any_eq s col \<Longrightarrow>
   get_col t' c = Some col"
  by (auto dest!: frame_kept_get_Some dest: col_kept_no_code)

lemma cols_con_total:
  "\<forall>c\<in>set cs. get_col t c \<noteq> None \<Longrightarrow> \<exists>r. cols_con s t cs = Inr r"
  by (induction cs) auto

subsection \<open>Replacing the code \<open>-6\<close>\<close>

lemma replace_6_kept: "col_kept [- 6] col (replace_6 r col)"
  by (simp add: col_kept_def replace_6_def list_all2_conv_all_nth cell_kept_def)

lemma replace_6_idem: "replace_6 r (replace_6 r col) = replace_6 r col"
  by (simp add: replace_6_def)

lemma replace_6_noop: "\<not> any_eq (- 6) col \<Longrightarrow> replace_6 r col = col"
  by (cases col) (simp add: replace_6_def any_eq_def list_ex_iff map_idI)

lemma replace_6_clean: "r \<noteq> Some (- 6) \<Longrightarrow> \<not> any_eq (- 6) (replace_6 r col)"
  by (cases r) (auto simp: replace_6_def any_eq_def list_ex_iff)

lemma na_loop_kept:
  "frame_kept [- 6] t0 t \<Longrightarrow> no_aplica_loop r t cs = (e, t') \<Longrightarrow> frame_kept [- 6] t0 t'"
proof (induction cs arbitrary: t)
  case Nil
  then show ?case by simp
next
  case (Cons c cs)
  show ?case
  proof (cases "get_col t c")
    case None
    with Cons.prems show ?thesis by simp
  next
    case (Some col)
    have "frame_kept [- 6] t0 (set_col t c (replace_6 r col))"
      using Cons.prems(1) Some replace_6_kept by (rule frame_kept_set_col)
    then show ?thesis using Cons.IH Cons.prems(2) Some by simp
  qed
qed

lemma na_loop_ok:
  "\<forall>c\<in>set cs. get_col t c \<noteq> None \<Longrightarrow> fst (no_aplica_loop r t cs) = None"
  by (induction cs arbitrary: t) (auto simp: get_col_set_col split: option.splits)

lemma na_loop_get:
  "no_aplica_loop r t cs = (None, t') \<Longrightarrow>
   get_col t' c = (if c \<in> set cs then map_option (replace_6 r) (get_col t c) else get_col t c)"
proof (induction cs arbitrary: t)
  case Nil
  then show ?case by simp
next
  case (Cons a cs)
  then obtain col where col: "get_col t a = Some col"
    by (cases "get_col t a") auto
  with Cons.prems have "no_aplica_loop r (set_col t a (replace_6 r col)) cs = (None, t')"
    by simp
  from Cons.IH[OF this] col show ?case
    by (auto simp: get_col_set_col replace_6_idem)
qed

lemma na_loop_fix:
  "\<forall>c\<in>set cs. \<exists>col. get_col t c = Some col \<and> replace_6 r col = col \<Longrightarrow>
   no_aplica_loop r t cs = (None, t)"
  by (induction cs) (auto simp: set_col_same)

lemma na_frame_kept: "no_aplica_frame t cols r = (e, t') \<Longrightarrow> frame_kept [- 6] t t'"
  by (auto simp: no_aplica_frame_def frame_kept_refl split: sum.splits
      intro: na_loop_kept[OF frame_kept_refl])

lemma na_frame_missing:
  "c \<in> set (cols_proc t cols) \<Longrightarrow> get_col t c = None \<Longrightarrow>
   no_aplica_frame t cols r = (Some KeyError, t)"
  by (simp add: no_aplica_frame_def cols_con_missing)

lemma na_frame_get:
  assumes "no_aplica_frame t cols r = (None, t')" "get_col t c = Some col"
  shows "get_col t' c = Some (if c \<in> set (cols_proc t cols) then replace_6 r col else col)"
proof -
  from assms(1) obtain cs where cs: "cols_con (- 6) t (cols_proc t cols) = Inr cs"
    and loop: "no_aplica_loop r t cs = (None, t')"
    by (auto simp: no_aplica_frame_def split: sum.splits)
  show ?thesis
    using na_loop_get[OF loop, of c] cols_con_mem[OF cs, of c] assms(2)
    by (auto simp: replace_6_noop)
qed

lemma na_frame_complete:
  "no_aplica_frame t cols r = (None, t') \<Longrightarrow> \<forall>c\<in>set (cols_proc t cols). get_col t c \<noteq> None"
  by (auto simp: no_aplica_frame_def split: sum.splits dest!: cols_con_Inr)

lemma na_frame_idem:
  assumes "no_aplica_frame t cols r = (None, t')"
  shows "no_aplica_frame t' cols r = (None, t')"
proof -
  have kept: "frame_kept [- 6] t t'" using assms by (rule na_frame_kept)
  have cp: "cols_proc t' cols = cols_proc t cols" using kept by (rule frame_kept_cols_proc)
  have ex: "\<exists>col. get_col t' c = Some col \<and> replace_6 r col = col" if "c \<in> set (cols_proc t cols)" for c
  proof -
    from na_frame_complete[OF assms] that obtain col where "get_col t c = Some col" by auto
    from na_frame_get[OF assms this] that show ?thesis by (simp add: replace_6_idem)
  qed
  have all: "\<forall>c\<in>set (cols_proc t' cols). get_col t' c \<noteq> None"
  proof
    fix c assume "c \<in> set (cols_proc t' cols)"
    then have "c \<in> set (cols_proc t cols)" by (simp add: cp)
    from ex[OF this] show "get_col t' c \<noteq> None" by auto
  qed
  obtain cs where cs: "cols_con (- 6) t' (cols_proc t' cols) = Inr cs"
    using cols_con_total[OF all] by auto
  have "set cs \<subseteq> set (cols_proc t cols)" using cols_con_subset[OF cs] cp by simp
  then have "no_aplica_loop r t' cs = (None, t')"
    using ex by (intro na_loop_fix) auto
  with cs show ?thesis by (simp add: no_aplica_frame_def)
qed

subsection \<open>Imputing the code \<open>-8\<close>\<close>

lemma loc_set_mask:
  "loc_set (map p cells) v cells = map (\<lambda>x. if p x then v else x) cells"
  by (induction cells) (simp_all add: loc_set_def)

lemma ge0_col_Inr:
  "ge0_col cells = Inr bs \<Longrightarrow>
   bs = map (\<lambda>v. ge0 v = Inr True) cells \<and> (\<forall>v\<in>set cells. \<forall>t. v \<noteq> Str t)"
  by (induction cells arbitrary: bs) (auto split: sum.splits)

lemma ge0_col_total:
  "\<forall>v\<in>set cells. \<forall>t. v \<noteq> Str t \<Longrightarrow> ge0_col cells = Inr (map (\<lambda>v. ge0 v = Inr True) cells)"
proof (induction cells)
  case Nil
  then show ?case by simp
next
  case (Cons v vs)
  then show ?case by (cases v) auto
qed

lemma ge0_col_Inl: "ge0_col cells = Inl e \<Longrightarrow> e = TypeError \<and> (\<exists>t. Str t \<in> set cells)"
proof (induction cells)
  case Nil
  then show ?case by simp
next
  case (Cons v vs)
  then show ?case by (cases v) (auto split: sum.splits)
qed

lemma filter_zip_mask:
  "map fst (filter (\<lambda>p. snd p) (zip cells (map2 (\<lambda>m g. \<not> m \<and> g) (map p cells) (map q cells))))
   = filter (\<lambda>v. \<not> p v \<and> q v) cells"
  by (induction cells) auto

lemma valores_validos_Inr:
  assumes "valores_validos (map (eq_num (- 8)) cells) cells = Inr vv"
  shows "vv = filter (\<lambda>v. \<not> eq_num (- 8) v \<and> ge0 v = Inr True) cells"
    and "\<forall>v\<in>set cells. \<forall>t. v \<noteq> Str t"
proof -
  from assms obtain bs where bs: "ge0_col cells = Inr bs"
    by (auto simp: valores_validos_def split: sum.splits)
  from ge0_col_Inr[OF bs] show "\<forall>v\<in>set cells. \<forall>t. v \<noteq> Str t" by simp
  from ge0_col_Inr[OF bs] assms bs show "vv = filter (\<lambda>v. \<not> eq_num (- 8) v \<and> ge0 v = Inr True) cells"
    by (simp add: valores_validos_def filter_zip_mask)
qed

lemma valores_validos_total:
  "\<forall>v\<in>set cells. \<forall>t. v \<noteq> Str t \<Longrightarrow>
   valores_validos (map (eq_num (- 8)) cells) cells =
     Inr (filter (\<lambda>v. \<not> eq_num (- 8) v \<and> ge0 v = Inr True) cells)"
  by (simp add: valores_validos_def ge0_col_total filter_zip_mask)

lemma valores_validos_Inl:
  "valores_validos m cells = Inl e \<Longrightarrow> e = TypeError \<and> (\<exists>t. Str t \<in> set cells)"
  by (auto simp: valores_validos_def split: sum.splits dest: ge0_col_Inl)

lemma validos_elegibles:
  "map valor (filter (\<lambda>v. \<not> eq_num (- 8) v \<and> ge0 v = Inr True) cells) = elegibles_spec cells"
proof -
  have "(\<not> eq_num (- 8) v \<and> ge0 v = Inr True) =
        (es_valor v \<and> \<not> eq_num (- 6) v \<and> \<not> eq_num (- 8) v \<and> \<not> valor v < 0)" for v
    by (cases v) auto
  then show ?thesis by (simp add: elegibles_spec_def)
qed

lemma elegibles_nonneg: "\<forall>x\<in>set (elegibles_spec cells). 0 \<le> x"
  by (auto simp: elegibles_spec_def)

lemma median_nonneg:
  assumes "xs \<noteq> []" "\<forall>x\<in>set xs. 0 \<le> x"
  shows "0 \<le> median xs"
proof -
  let ?s = "sort xs"
  have len: "0 < length ?s" using assms(1) by simp
  have nn: "0 \<le> ?s ! i" if "i < length ?s" for i
    using assms(2) nth_mem[OF that] by simp
  have "0 \<le> ?s ! (length ?s div 2)" using len by (intro nn) simp
  moreover have "0 \<le> ?s ! (length ?s div 2 - 1)" using len by (intro nn) arith
  ultimately show ?thesis by (simp add: median_def Let_def)
qed

lemma mean_nonneg: "\<forall>x\<in>set xs. (0::rat) \<le> x \<Longrightarrow> 0 \<le> mean xs"
  by (simp add: mean_def sum_list_nonneg)

lemma round_half_even_nonneg: "0 \<le> x \<Longrightarrow> 0 \<le> round_half_even x"
  by (auto simp: round_half_even_def Let_def)

lemma round1_nonneg: "0 \<le> x \<Longrightarrow> 0 \<le> round1 x"
  by (simp add: round1_def round_half_even_nonneg)

lemma round1_zero: "round1 0 = 0"
  by (simp add: round1_def round_half_even_def)

lemma imputacion_spec_nonneg: "0 \<le> imputacion_spec m cells"
  using elegibles_nonneg[of cells]
  by (auto simp: imputacion_spec_def Let_def intro!: median_nonneg round1_nonneg mean_nonneg)

text \<open>The two statistical methods, in closed form.\<close>

lemma imputar_stat:
  assumes "m = ''mediana'' \<or> m = ''media''" "imputar ad m vb col = Inr col'"
  shows "col' = (fst col, map (\<lambda>v. if eq_num (- 8) v then Num (imputacion_spec m (snd col)) else v) (snd col))"
    and "\<forall>v\<in>set (snd col). \<forall>t. v \<noteq> Str t"
proof -
  from assms obtain vv where vv: "valores_validos (map (eq_num (- 8)) (snd col)) (snd col) = Inr vv"
    by (auto simp: imputar_def asignar_def Let_def split: sum.splits if_splits)
  note v = valores_validos_Inr[OF vv]
  show "\<forall>v\<in>set (snd col). \<forall>t. v \<noteq> Str t" by (rule v(2))
  have e: "map valor vv = elegibles_spec (snd col)"
    by (simp add: v(1) validos_elegibles)
  have z: "vv = [] \<longleftrightarrow> elegibles_spec (snd col) = []"
    using e by (metis map_is_Nil_conv)
  show "col' = (fst col, map (\<lambda>v. if eq_num (- 8) v then Num (imputacion_spec m (snd col)) else v) (snd col))"
    using assms vv e z
    by (auto simp: imputar_def asignar_def Let_def loc_set_mask imputacion_spec_def round1_zero
        split: if_splits)
qed

text \<open>
  An imputation raises only \<open>TypeError\<close>: from the comparison \<open>resultado[c] >= 0\<close> on a
  column that holds a text, or from an assignment that pandas refuses.
\<close>

lemma imputar_error:
  "imputar ad m vb col = Inl e \<Longrightarrow>
   e = TypeError \<and>
   ((m = ''mediana'' \<or> m = ''media'') \<and> (\<exists>t. Str t \<in> set (snd col)) \<or>
    (\<exists>v. \<not> ad (map (eq_num (- 8)) (snd col)) col v))"
  by (auto simp: imputar_def asignar_def Let_def split: if_splits sum.splits
      dest: valores_validos_Inl)

lemma map_replace_kept: "list_all2 (cell_kept [s]) cells (map (\<lambda>x. if eq_num s x then V else x) cells)"
  by (simp add: list_all2_conv_all_nth cell_kept_def)

lemma imputar_kept: "imputar ad m vb col = Inr col' \<Longrightarrow> col_kept [- 8] col col'"
  by (auto simp: imputar_def asignar_def Let_def loc_set_mask col_kept_def map_replace_kept cell_kept_refl list_all2_refl
      split: if_splits sum.splits)

lemma map_replace_none:
  "\<not> list_ex p cells \<Longrightarrow> map (\<lambda>x. if p x then V else x) cells = cells"
  by (auto simp: list_ex_iff intro: map_idI)

text \<open>
  A column that was imputed and is imputed again does not change: the mask selects no
  row, or the value written is the code \<open>-8\<close> itself.
\<close>

lemma imputar_idem:
  assumes "imputar ad m vb col = Inr col'" "imputar ad m vb col' = Inr col''"
  shows "col'' = col'"
proof (cases "m = ''mediana'' \<or> m = ''media''")
  case True
  note st = imputar_stat[OF True assms(1)]
  have clean: "\<not> list_ex (eq_num (- 8)) (snd col')"
    using imputacion_spec_nonneg[of m "snd col"]
    by (subst st(1)) (auto simp: list_ex_iff)
  have "col'' = (fst col', snd col')"
    using imputar_stat(1)[OF True assms(2)] clean by (simp add: map_replace_none)
  then show ?thesis by simp
next
  case False
  with assms show ?thesis
    by (auto simp: imputar_def asignar_def Let_def loc_set_mask split: if_splits)
qed

lemma conf_loop_kept:
  "frame_kept [- 8] t0 t \<Longrightarrow> confidencial_loop ad m vb t cs = (e, t') \<Longrightarrow> frame_kept [- 8] t0 t'"
proof (induction cs arbitrary: t)
  case Nil
  then show ?case by simp
next
  case (Cons c cs)
  show ?case
  proof (cases "get_col t c")
    case None
    with Cons.prems show ?thesis by simp
  next
    case (Some col)
    show ?thesis
    proof (cases "imputar ad m vb col")
      case (Inl a)
      with Some Cons.prems show ?thesis by simp
    next
      case (Inr col')
      have "frame_kept [- 8] t0 (set_col t c col')"
        using Cons.prems(1) Some imputar_kept[OF Inr] by (rule frame_kept_set_col)
      then show ?thesis using Cons.IH Cons.prems(2) Some Inr by simp
    qed
  qed
qed

lemma conf_loop_get:
  "confidencial_loop ad m vb t cs = (None, t') \<Longrightarrow>
   (if c \<in> set cs
    then \<exists>col col'. get_col t c = Some col \<and> imputar ad m vb col = Inr col' \<and> get_col t' c = Some col'
    else get_col t' c = get_col t c)"
proof (induction cs arbitrary: t)
  case Nil
  then show ?case by simp
next
  case (Cons a cs)
  from Cons.prems obtain col where col: "get_col t a = Some col"
    by (cases "get_col t a") auto
  with Cons.prems obtain col' where col': "imputar ad m vb col = Inr col'"
    by (cases "imputar ad m vb col") auto
  with col Cons.prems have loop: "confidencial_loop ad m vb (set_col t a col') cs = (None, t')"
    by simp
  note ih = Cons.IH[OF loop]
  show ?case
  proof (cases "c = a")
    case True
    with ih col col' show ?thesis
      by (auto simp: get_col_set_col dest: imputar_idem[OF col'] split: if_splits)
  next
    case False
    with ih show ?thesis by (auto simp: get_col_set_col split: if_splits)
  qed
qed

lemma conf_frame_kept: "confidencial_frame ad t cols m vb = (e, t') \<Longrightarrow> frame_kept [- 8] t t'"
  by (auto simp: confidencial_frame_def frame_kept_refl split: sum.splits
      intro: conf_loop_kept[OF frame_kept_refl])

lemma conf_frame_missing:
  "c \<in> set (cols_proc t cols) \<Longrightarrow> get_col t c = None \<Longrightarrow>
   confidencial_frame ad t cols m vb = (Some KeyError, t)"
  by (simp add: confidencial_frame_def cols_con_missing)

lemma conf_frame_get:
  assumes "confidencial_frame ad t cols m vb = (None, t')" "get_col t c = Some col"
  shows "if c \<in> set (cols_proc t cols) \<and> any_eq (- 8) col
         then \<exists>col'. imputar ad m vb col = Inr col' \<and> get_col t' c = Some col'
         else get_col t' c = Some col"
proof -
  from assms(1) obtain cs where cs: "cols_con (- 8) t (cols_proc t cols) = Inr cs"
    and loop: "confidencial_loop ad m vb t cs = (None, t')"
    by (auto simp: confidencial_frame_def split: sum.splits)
  show ?thesis
    using conf_loop_get[OF loop, of c] cols_con_mem[OF cs, of c] assms(2)
    by (auto split: if_splits)
qed

subsection \<open>Calls\<close>

lemma na_call:
  "tratar_no_aplica h df cols r =
     (case no_aplica_frame (h ! df) cols r of
        (err, t) \<Rightarrow> ((case err of Some e \<Rightarrow> Inl e | None \<Rightarrow> Inr (length h)), h @ [t]))"
  by (simp add: tratar_no_aplica_def df_copy_def split: prod.splits)

lemma conf_call:
  "tratar_confidencial ad h df cols m vb =
     (if m \<notin> set METODOS_CONF then (Inl ValueError, h)
      else (case confidencial_frame ad (h ! df) cols m vb of
        (err, t) \<Rightarrow> ((case err of Some e \<Rightarrow> Inl e | None \<Rightarrow> Inr (length h)), h @ [t])))"
  by (simp add: tratar_confidencial_def df_copy_def split: prod.splits)

lemma marcar_call:
  "marcar_censurados h df cols s6 s8 =
     (case marcar_frame (h ! df) cols s6 s8 of
        (err, t) \<Rightarrow> ((case err of Some e \<Rightarrow> Inl e | None \<Rightarrow> Inr (length h)), h @ [t]))"
  by (simp add: marcar_censurados_def df_copy_def split: prod.splits)

lemma na_returned:
  "returned (tratar_no_aplica h df cols r) = Inr t' \<longleftrightarrow> no_aplica_frame (h ! df) cols r = (None, t')"
  by (auto simp: na_call returned_def split: prod.splits option.splits)

lemma conf_returned:
  "returned (tratar_confidencial ad h df cols m vb) = Inr t' \<longleftrightarrow>
     m \<in> set METODOS_CONF \<and> confidencial_frame ad (h ! df) cols m vb = (None, t')"
  by (auto simp: conf_call returned_def split: prod.splits option.splits)

lemma marcar_returned:
  "returned (marcar_censurados h df cols s6 s8) = Inr t' \<longleftrightarrow>
     marcar_frame (h ! df) cols s6 s8 = (None, t')"
  by (auto simp: marcar_call returned_def split: prod.splits option.splits)

lemma censurados_returned:
  "returned (tratar_censurados ad h df cols m vb r) = Inr t' \<longleftrightarrow>
     (\<exists>t1. no_aplica_frame (h ! df) cols r = (None, t1) \<and> m \<in> set METODOS_CONF \<and>
           confidencial_frame ad t1 cols m vb = (None, t'))"
  by (auto simp: tratar_censurados_def na_call conf_call returned_def nth_append
      split: prod.splits option.splits sum.splits)

lemmas eval_defs =
  tratar_no_aplica_def tratar_confidencial_def tratar_censurados_def marcar_censurados_def
  df_copy_def no_aplica_frame_def confidencial_frame_def marcar_frame_def marcar_paso_def
  cols_proc_def select_number_def get_col_def set_col_def any_eq_def replace_6_def
  imputar_def asignar_def admite_siempre_def valores_validos_def loc_set_def flag_col_def
  METODOS_CONF_def returned_def
  median_def mean_def round1_def round_half_even_def Let_def labels_def
  pop_df_def pop_cells_def vacio_df_def tres_df_def neg_df_def obj_df_def

lemma na_frame_clean:
  assumes "no_aplica_frame t cols r = (None, t')" "r \<noteq> Some (- 6)"
    "c \<in> set (cols_proc t' cols)" "get_col t' c = Some col"
  shows "\<not> any_eq (- 6) col"
proof -
  have cp: "cols_proc t' cols = cols_proc t cols"
    using na_frame_kept[OF assms(1)] by (rule frame_kept_cols_proc)
  with assms(3) have c: "c \<in> set (cols_proc t cols)" by simp
  with na_frame_complete[OF assms(1)] obtain col0 where "get_col t c = Some col0" by auto
  from na_frame_get[OF assms(1) this] c assms(4) have "col = replace_6 r col0" by simp
  with assms(2) show ?thesis by (simp add: replace_6_clean)
qed

lemma conf_frame_complete:
  "confidencial_frame ad t cols m vb = (None, t') \<Longrightarrow> \<forall>c\<in>set (cols_proc t cols). get_col t c \<noteq> None"
  by (auto simp: confidencial_frame_def split: sum.splits dest!: cols_con_Inr)

lemma na_frame_local:
  assumes "no_aplica_frame ta cols r = (None, ta')" "no_aplica_frame tb cols r = (None, tb')"
    and "c \<in> set (cols_proc ta cols)" "c \<in> set (cols_proc tb cols)"
    and "get_col ta c = get_col tb c"
  shows "get_col ta' c = get_col tb' c"
proof -
  from na_frame_complete[OF assms(1)] assms(3) obtain col where a: "get_col ta c = Some col"
    by auto
  with assms(5) have b: "get_col tb c = Some col" by simp
  show ?thesis
    using na_frame_get[OF assms(1) a] na_frame_get[OF assms(2) b] assms(3,4) by simp
qed

lemma conf_frame_local:
  assumes "confidencial_frame ad ta cols m vb = (None, ta')" "confidencial_frame ad tb cols m vb = (None, tb')"
    and "c \<in> set (cols_proc ta cols)" "c \<in> set (cols_proc tb cols)"
    and "get_col ta c = get_col tb c"
  shows "get_col ta' c = get_col tb' c"
proof -
  from conf_frame_complete[OF assms(1)] assms(3) obtain col where a: "get_col ta c = Some col"
    by auto
  with assms(5) have b: "get_col tb c = Some col" by simp
  show ?thesis
    using conf_frame_get[OF assms(1) a] conf_frame_get[OF assms(2) b] assms(3,4)
    by (auto split: if_splits)
qed

lemma pop_censurados:
  "returned (aplicar admite_siempre Censurados [pop_df] 0 None ''media'' (Some 3) (Some 0)) =
     Inr \<lparr>nrows = 5, columns = [(''pop'', (Number, [Num 0, Num (19 / 5), Num 10, Num 0, Num 5]))]\<rparr>"
  by code_simp

lemma tres_censurados:
  "returned (aplicar admite_siempre Censurados [tres_df] 0 None ''media'' (Some 3) (Some 0)) =
     Inr \<lparr>nrows = 5, columns =
       [(''nom'', (Object, [Str ''a'', Str ''b'', Str ''c'', Str ''d'', Str ''e''])),
        (''pop'', (Number, [Num 0, Num (19 / 5), Num 10, Num 0, Num 5])),
        (''viv'', (Number, [Num 4, Num (17 / 10), Num (17 / 10), Num 1, Num 0]))]\<rparr>"
  by code_simp

subsection \<open>What every resolver keeps\<close>

lemma aplicar_store: "take (length h) (snd (aplicar ad R h df cols m vb r)) = h"
  by (cases R)
    (auto simp: na_call conf_call tratar_censurados_def split: prod.splits option.splits sum.splits)

lemma aplicar_fresh:
  "fst (aplicar ad R h df cols m vb r) = Inr res \<Longrightarrow>
   length h \<le> res \<and> res < length (snd (aplicar ad R h df cols m vb r))"
  by (cases R)
    (auto simp: na_call conf_call tratar_censurados_def split: prod.splits option.splits sum.splits if_splits)

lemma conf_frame_kept_codes:
  assumes "no_aplica_frame t cols r = (None, t1)" "confidencial_frame ad t1 cols m vb = (None, t')"
  shows "frame_kept [- 6, - 8] t t'"
  using frame_kept_trans[OF na_frame_kept[OF assms(1)] conf_frame_kept[OF assms(2)]] by simp

lemma aplicar_kept:
  "returned (aplicar ad R h df cols m vb r) = Inr t' \<Longrightarrow> frame_kept (codigos R) (h ! df) t'"
  by (cases R)
    (auto simp: na_returned conf_returned censurados_returned
      intro: na_frame_kept conf_frame_kept conf_frame_kept_codes)

lemma na_frame_outside:
  assumes "no_aplica_frame t cols r = (None, t')" "c \<notin> set (cols_proc t cols)"
  shows "get_col t' c = get_col t c"
proof (cases "get_col t c")
  case None
  with na_frame_kept[OF assms(1)] show ?thesis by (simp add: frame_kept_get_None)
next
  case (Some col)
  with na_frame_get[OF assms(1) Some] assms(2) show ?thesis by simp
qed

lemma conf_frame_outside:
  assumes "confidencial_frame ad t cols m vb = (None, t')" "c \<notin> set (cols_proc t cols)"
  shows "get_col t' c = get_col t c"
proof (cases "get_col t c")
  case None
  with conf_frame_kept[OF assms(1)] show ?thesis by (simp add: frame_kept_get_None)
next
  case (Some col)
  with conf_frame_get[OF assms(1) Some] assms(2) show ?thesis by simp
qed

lemma aplicar_outside:
  assumes "returned (aplicar ad R h df cols m vb r) = Inr t'" "c \<notin> set (cols_proc (h ! df) cols)"
  shows "get_col t' c = get_col (h ! df) c"
proof (cases R)
  case NoAplica
  with assms show ?thesis by (auto simp: na_returned intro: na_frame_outside)
next
  case Confidencial
  with assms show ?thesis by (auto simp: conf_returned intro: conf_frame_outside)
next
  case Censurados
  with assms obtain t1 where n: "no_aplica_frame (h ! df) cols r = (None, t1)"
    and c: "confidencial_frame ad t1 cols m vb = (None, t')"
    by (auto simp: censurados_returned)
  have "cols_proc t1 cols = cols_proc (h ! df) cols"
    using na_frame_kept[OF n] by (rule frame_kept_cols_proc)
  with assms(2) have "c \<notin> set (cols_proc t1 cols)" by simp
  from conf_frame_outside[OF c this] na_frame_outside[OF n assms(2)] show ?thesis by simp
qed

lemma not_number_not_selected:
  assumes "distinct (labels t)" "get_col t c = Some col" "fst col \<noteq> Number"
  shows "c \<notin> set (select_number t)"
proof
  assume "c \<in> set (select_number t)"
  then obtain col' where m: "(c, col') \<in> set (columns t)" and n: "fst col' = Number"
    by (auto simp: select_number_def)
  from assms(1) m have "map_of (columns t) c = Some col'"
    by (simp add: labels_def)
  with assms(2,3) n show False by (simp add: get_col_def)
qed

lemma not_selected:
  assumes "distinct (labels t)" "get_col t c = Some col" "fst col \<noteq> Number"
    and "case cols of None \<Rightarrow> True | Some cs \<Rightarrow> c \<notin> set cs"
  shows "c \<notin> set (cols_proc t cols)"
  using assms not_number_not_selected[OF assms(1-3)]
  by (auto simp: cols_proc_def split: option.splits)

subsection \<open>Marking\<close>

lemma flag_col_no_code [simp]:
  "\<not> any_eq (- 6) (flag_col s col)" "\<not> any_eq (- 8) (flag_col s col)"
  by (auto simp: any_eq_def flag_col_def list_ex_iff)

lemma flag_col_true: "any_eq s col \<Longrightarrow> Flag True \<in> set (snd (flag_col s col))"
  by (auto simp: any_eq_def flag_col_def list_ex_iff)

lemma banderas_de_mem:
  "(n, fc) \<in> set (banderas_de s6 s8 t c) \<longleftrightarrow>
     (\<exists>col. get_col t c = Some col \<and>
        ((n = c @ s6 \<and> any_eq (- 6) col \<and> fc = flag_col (- 6) col) \<or>
         (n = c @ s8 \<and> any_eq (- 8) col \<and> fc = flag_col (- 8) col)))"
  by (cases "get_col t c") (auto simp: banderas_de_def)

lemma banderas_de_no_code:
  "(n, fc) \<in> set (banderas_de s6 s8 t c) \<Longrightarrow> \<not> any_eq (- 6) fc \<and> \<not> any_eq (- 8) fc"
  by (auto simp: banderas_de_mem)

lemma marcar_paso_None: "get_col t c = None \<Longrightarrow> marcar_paso s6 s8 t c = (Some KeyError, t)"
  by (simp add: marcar_paso_def)

lemma marcar_paso_Some:
  assumes "get_col t c = Some col"
  shows "marcar_paso s6 s8 t c =
     (None,
      (let t1 = (if any_eq (- 6) col then set_col t (c @ s6) (flag_col (- 6) col) else t)
       in if any_eq (- 8) col
          then set_col t1 (c @ s8) (flag_col (- 8) (if any_eq (- 6) col \<and> s6 = [] then flag_col (- 6) col else col))
          else t1))"
  using assms by (auto simp: marcar_paso_def Let_def get_col_set_col split: option.splits)

lemma marcar_paso_error: "marcar_paso s6 s8 t c = (Some e, t') \<Longrightarrow> e = KeyError \<and> get_col t c = None"
  by (cases "get_col t c") (auto simp: marcar_paso_None marcar_paso_Some)

lemma marcar_loop_error: "marcar_loop s6 s8 t cs = (Some e, t') \<Longrightarrow> e = KeyError"
proof (induction cs arbitrary: t)
  case Nil
  then show ?case by simp
next
  case (Cons c cs)
  then show ?case
    by (cases "marcar_paso s6 s8 t c") (auto split: option.splits dest: marcar_paso_error)
qed

lemma marcar_paso_labels:
  assumes "marcar_paso s6 s8 t c = (e, t')"
  shows "set (labels t) \<subseteq> set (labels t') \<and> set (labels t') \<subseteq> set (labels t) \<union> {c @ s6, c @ s8} \<and>
         prefix (labels t) (labels t') \<and> nrows t' = nrows t"
proof (cases "get_col t c")
  case None
  with assms have "t' = t" by (simp add: marcar_paso_None)
  then show ?thesis by auto
next
  case (Some col)
  with assms show ?thesis
    by (auto simp: marcar_paso_Some Let_def labels_set_col nrows_set_col split: if_splits)
qed

lemma marcar_loop_prefix:
  "marcar_loop s6 s8 t cs = (e, t') \<Longrightarrow> prefix (labels t) (labels t') \<and> nrows t' = nrows t"
proof (induction cs arbitrary: t)
  case Nil
  then show ?case by simp
next
  case (Cons c cs)
  obtain e1 t1 where p: "marcar_paso s6 s8 t c = (e1, t1)" by (cases "marcar_paso s6 s8 t c")
  note l = marcar_paso_labels[OF p]
  show ?case
  proof (cases e1)
    case None
    with Cons.prems p have "marcar_loop s6 s8 t1 cs = (e, t')" by simp
    from Cons.IH[OF this] l show ?thesis by (auto intro: prefix_order.trans)
  next
    case (Some a)
    with Cons.prems p l show ?thesis by auto
  qed
qed

lemma marcar_loop_names:
  "marcar_loop s6 s8 t cs = (None, t') \<Longrightarrow>
   \<forall>c\<in>set cs. c \<in> set (labels t) \<union> (\<lambda>x. x @ s6) ` set cs \<union> (\<lambda>x. x @ s8) ` set cs"
proof (induction cs arbitrary: t)
  case Nil
  then show ?case by simp
next
  case (Cons c cs)
  obtain e1 t1 where p: "marcar_paso s6 s8 t c = (e1, t1)" by (cases "marcar_paso s6 s8 t c")
  with Cons.prems have e1: "e1 = None" and loop: "marcar_loop s6 s8 t1 cs = (None, t')"
    by (auto split: option.splits)
  have "get_col t c \<noteq> None"
    using p e1 by (cases "get_col t c") (auto simp: marcar_paso_None)
  then have c: "c \<in> set (labels t)" by (simp add: get_col_None_iff)
  from Cons.IH[OF loop] marcar_paso_labels[OF p] c show ?case by auto
qed

lemma marcar_loop_missing:
  assumes "c \<in> set cs" "c \<notin> set (labels t)" "c \<notin> (\<lambda>x. x @ s6) ` set cs \<union> (\<lambda>x. x @ s8) ` set cs"
  shows "fst (marcar_loop s6 s8 t cs) = Some KeyError"
proof (cases "marcar_loop s6 s8 t cs")
  case (Pair e t')
  show ?thesis
  proof (cases e)
    case None
    with Pair marcar_loop_names[of s6 s8 t cs t'] assms show ?thesis by auto
  next
    case (Some a)
    with Pair marcar_loop_error[of s6 s8 t cs a t'] show ?thesis by simp
  qed
qed

subsection \<open>Where the flags come from\<close>

lemma marca_inv_refl: "marca_inv s6 s8 t0 cs t0"
  by (simp add: marca_inv_def)

lemma marca_inv_paso:
  assumes "s6 \<noteq> []" "marca_inv s6 s8 t0 cs t" "c \<in> set cs" "marcar_paso s6 s8 t c = (None, t')"
  shows "marca_inv s6 s8 t0 cs t'"
proof -
  from assms(4) obtain col where col: "get_col t c = Some col"
    by (cases "get_col t c") (auto simp: marcar_paso_None)
  from assms(2) have "get_col t c = get_col t0 c \<or>
      (\<exists>c'\<in>set cs. \<exists>fc. get_col t c = Some fc \<and> (c, fc) \<in> set (banderas_de s6 s8 t0 c'))"
    by (simp add: marca_inv_def)
  then show ?thesis
  proof
    assume same: "get_col t c = get_col t0 c"
    with col have c0: "get_col t0 c = Some col" by simp
    have t': "t' = (let t1 = (if any_eq (- 6) col then set_col t (c @ s6) (flag_col (- 6) col) else t)
       in if any_eq (- 8) col then set_col t1 (c @ s8) (flag_col (- 8) col) else t1)"
      using assms(1,4) by (auto simp: marcar_paso_Some[OF col] Let_def)
    have b6: "any_eq (- 6) col \<Longrightarrow> (c @ s6, flag_col (- 6) col) \<in> set (banderas_de s6 s8 t0 c)"
      and b8: "any_eq (- 8) col \<Longrightarrow> (c @ s8, flag_col (- 8) col) \<in> set (banderas_de s6 s8 t0 c)"
      using c0 by (simp_all add: banderas_de_mem)
    show ?thesis
      unfolding marca_inv_def
    proof
      fix n
      from assms(2) have old: "get_col t n = get_col t0 n \<or>
        (\<exists>c\<in>set cs. \<exists>fc. get_col t n = Some fc \<and> (n, fc) \<in> set (banderas_de s6 s8 t0 c))"
        by (simp add: marca_inv_def)
      have g: "get_col t' n =
          (if any_eq (- 8) col \<and> n = c @ s8 then Some (flag_col (- 8) col)
           else if any_eq (- 6) col \<and> n = c @ s6 then Some (flag_col (- 6) col)
           else get_col t n)"
        by (simp add: t' Let_def get_col_set_col)
      consider (a) "any_eq (- 8) col \<and> n = c @ s8"
        | (b) "\<not> (any_eq (- 8) col \<and> n = c @ s8)" "any_eq (- 6) col \<and> n = c @ s6"
        | (c) "\<not> (any_eq (- 8) col \<and> n = c @ s8)" "\<not> (any_eq (- 6) col \<and> n = c @ s6)"
        by blast
      then show "get_col t' n = get_col t0 n \<or>
        (\<exists>c\<in>set cs. \<exists>fc. get_col t' n = Some fc \<and> (n, fc) \<in> set (banderas_de s6 s8 t0 c))"
      proof cases
        case a
        have "get_col t' n = Some (flag_col (- 8) col)"
          by (subst g) (use a in auto)
        moreover have "(n, flag_col (- 8) col) \<in> set (banderas_de s6 s8 t0 c)"
          using a b8 by simp
        ultimately show ?thesis using assms(3) by blast
      next
        case b
        have "get_col t' n = Some (flag_col (- 6) col)"
          by (subst g) (use b in auto)
        moreover have "(n, flag_col (- 6) col) \<in> set (banderas_de s6 s8 t0 c)"
          using b b6 by simp
        ultimately show ?thesis using assms(3) by blast
      next
        case c
        have "get_col t' n = get_col t n"
          by (subst g) (use c in auto)
        with old show ?thesis by simp
      qed
    qed
  next
    assume "\<exists>c'\<in>set cs. \<exists>fc. get_col t c = Some fc \<and> (c, fc) \<in> set (banderas_de s6 s8 t0 c')"
    with col obtain c' where "(c, col) \<in> set (banderas_de s6 s8 t0 c')" by auto
    from banderas_de_no_code[OF this] have "t' = t"
      using assms(4) by (simp add: marcar_paso_Some[OF col])
    with assms(2) show ?thesis by simp
  qed
qed

lemma marca_inv_loop:
  assumes "s6 \<noteq> []"
  shows "marca_inv s6 s8 t0 cs0 t \<Longrightarrow> set cs \<subseteq> set cs0 \<Longrightarrow> marcar_loop s6 s8 t cs = (None, t') \<Longrightarrow>
         marca_inv s6 s8 t0 cs0 t'"
proof (induction cs arbitrary: t)
  case Nil
  then show ?case by simp
next
  case (Cons c cs)
  obtain e1 t1 where p: "marcar_paso s6 s8 t c = (e1, t1)" by (cases "marcar_paso s6 s8 t c")
  with Cons.prems(3) have e1: "e1 = None" and loop: "marcar_loop s6 s8 t1 cs = (None, t')"
    by (auto split: option.splits)
  have "marca_inv s6 s8 t0 cs0 t1"
    using assms Cons.prems(1) _ p[unfolded e1] by (rule marca_inv_paso) (use Cons.prems(2) in auto)
  from Cons.IH[OF this _ loop] Cons.prems(2) show ?case by simp
qed

lemma marcar_frame_origen:
  assumes "s6 \<noteq> []" "marcar_frame t cols s6 s8 = (None, t')"
  shows "marca_inv s6 s8 t (cols_proc t cols) t'"
  using marca_inv_loop[OF assms(1) marca_inv_refl subset_refl, of s8 t "cols_proc t cols" t'] assms(2)
  by (simp add: marcar_frame_def)

subsection \<open>New labels are appended\<close>

lemma update_new: "k \<notin> fst ` set al \<Longrightarrow> AList.update k v al = al @ [(k, v)]"
  by (induction al) auto

lemma set_col_new:
  "c \<notin> set (labels t) \<Longrightarrow> set_col t c col = t\<lparr>columns := columns t @ [(c, col)]\<rparr>"
  by (simp add: set_col_def labels_def update_new)

lemma get_col_append:
  "get_col (t\<lparr>columns := columns t @ acc\<rparr>) c =
     (case get_col t c of Some v \<Rightarrow> Some v | None \<Rightarrow> map_of acc c)"
  by (simp add: get_col_def map_add_def split: option.splits)

lemma labels_append: "labels (t\<lparr>columns := columns t @ acc\<rparr>) = labels t @ map fst acc"
  by (simp add: labels_def)

lemma marcar_paso_append:
  assumes d: "distinct (labels t0 @ map fst acc @ map fst (banderas_de s6 s8 t0 c))"
    and nc: "\<forall>p\<in>set acc. \<not> any_eq (- 6) (snd p) \<and> \<not> any_eq (- 8) (snd p)"
    and p: "marcar_paso s6 s8 (t0\<lparr>columns := columns t0 @ acc\<rparr>) c = (None, t1)"
  shows "t1 = t0\<lparr>columns := columns t0 @ acc @ banderas_de s6 s8 t0 c\<rparr>"
proof -
  let ?t = "t0\<lparr>columns := columns t0 @ acc\<rparr>"
  from p obtain col where col: "get_col ?t c = Some col"
    by (cases "get_col ?t c") (auto simp: marcar_paso_None)
  show ?thesis
  proof (cases "get_col t0 c")
    case None
    with col have "map_of acc c = Some col" by (simp add: get_col_append)
    then have "(c, col) \<in> set acc" by (rule map_of_SomeD)
    with nc have "\<not> any_eq (- 6) col \<and> \<not> any_eq (- 8) col" by auto
    then have "t1 = ?t" using p by (simp add: marcar_paso_Some[OF col])
    then show ?thesis using None by (simp add: banderas_de_def)
  next
    case (Some col0)
    with col have [simp]: "col0 = col" by (simp add: get_col_append)
    have c0: "c \<in> set (labels t0)" using Some get_col_None_iff[of t0 c] by auto
    have b: "banderas_de s6 s8 t0 c =
        (if any_eq (- 6) col then [(c @ s6, flag_col (- 6) col)] else []) @
        (if any_eq (- 8) col then [(c @ s8, flag_col (- 8) col)] else [])"
      using Some by (simp add: banderas_de_def)
    have n6: "any_eq (- 6) col \<Longrightarrow> c @ s6 \<notin> set (labels ?t) \<and> s6 \<noteq> []"
      using d c0 by (auto simp: b labels_append)
    have n8: "any_eq (- 8) col \<Longrightarrow> c @ s8 \<notin> set (labels ?t) \<and> (any_eq (- 6) col \<longrightarrow> s8 \<noteq> s6)"
      using d by (auto simp: b labels_append)
    show ?thesis
      using p n6 n8
      by (auto simp: marcar_paso_Some[OF col] b Let_def set_col_new labels_append)
  qed
qed

lemma marcar_loop_append:
  "distinct (labels t0 @ map fst acc @ map fst (concat (map (banderas_de s6 s8 t0) cs))) \<Longrightarrow>
   \<forall>p\<in>set acc. \<not> any_eq (- 6) (snd p) \<and> \<not> any_eq (- 8) (snd p) \<Longrightarrow>
   marcar_loop s6 s8 (t0\<lparr>columns := columns t0 @ acc\<rparr>) cs = (None, t') \<Longrightarrow>
   t' = t0\<lparr>columns := columns t0 @ acc @ concat (map (banderas_de s6 s8 t0) cs)\<rparr>"
proof (induction cs arbitrary: acc)
  case Nil
  then show ?case by simp
next
  case (Cons c cs)
  let ?t = "t0\<lparr>columns := columns t0 @ acc\<rparr>"
  let ?b = "banderas_de s6 s8 t0 c"
  obtain e1 t1 where p: "marcar_paso s6 s8 ?t c = (e1, t1)" by (cases "marcar_paso s6 s8 ?t c")
  with Cons.prems(3) have e1: "e1 = None" and loop: "marcar_loop s6 s8 t1 cs = (None, t')"
    by (auto split: option.splits)
  have d1: "distinct (labels t0 @ map fst acc @ map fst ?b)"
    using Cons.prems(1) by auto
  have t1: "t1 = t0\<lparr>columns := columns t0 @ (acc @ ?b)\<rparr>"
    using marcar_paso_append[OF d1 Cons.prems(2) p[unfolded e1]] by simp
  have d2: "distinct (labels t0 @ map fst (acc @ ?b) @ map fst (concat (map (banderas_de s6 s8 t0) cs)))"
    using Cons.prems(1) by auto
  have nc: "\<forall>p\<in>set (acc @ ?b). \<not> any_eq (- 6) (snd p) \<and> \<not> any_eq (- 8) (snd p)"
    using Cons.prems(2) banderas_de_no_code[of _ _ s6 s8 t0 c] by auto
  from Cons.IH[OF d2 nc loop[unfolded t1]] show ?case by simp
qed

lemma marcar_frame_append:
  assumes "distinct (labels t @ map fst (concat (map (banderas_de s6 s8 t) (cols_proc t cols))))"
    and "marcar_frame t cols s6 s8 = (None, t')"
  shows "t' = t\<lparr>columns := columns t @ concat (map (banderas_de s6 s8 t) (cols_proc t cols))\<rparr>"
  using marcar_loop_append[of t "[]" s6 s8 "cols_proc t cols" t'] assms
  by (simp add: marcar_frame_def)

lemma marcar_frame_None_origen:
  assumes "s6 \<noteq> []" "marcar_frame t cols s6 s8 = (None, t')"
  shows "get_col t' n = get_col t n \<or>
      (\<exists>c\<in>set (cols_proc t cols). \<exists>col. get_col t c = Some col \<and>
          ((n = c @ s6 \<and> any_eq (- 6) col \<and> get_col t' n = Some (flag_col (- 6) col) \<and>
              Flag True \<in> set (snd (flag_col (- 6) col))) \<or>
           (n = c @ s8 \<and> any_eq (- 8) col \<and> get_col t' n = Some (flag_col (- 8) col) \<and>
              Flag True \<in> set (snd (flag_col (- 8) col)))))"
proof -
  from marcar_frame_origen[OF assms] have
    "get_col t' n = get_col t n \<or>
       (\<exists>c\<in>set (cols_proc t cols). \<exists>fc. get_col t' n = Some fc \<and> (n, fc) \<in> set (banderas_de s6 s8 t c))"
    by (simp add: marca_inv_def)
  then show ?thesis
  proof
    assume "get_col t' n = get_col t n"
    then show ?thesis by simp
  next
    assume "\<exists>c\<in>set (cols_proc t cols). \<exists>fc. get_col t' n = Some fc \<and> (n, fc) \<in> set (banderas_de s6 s8 t c)"
    then obtain c fc where c: "c \<in> set (cols_proc t cols)" and g: "get_col t' n = Some fc"
      and b: "(n, fc) \<in> set (banderas_de s6 s8 t c)" by blast
    from b obtain col where col: "get_col t c = Some col" and
      d: "(n = c @ s6 \<and> any_eq (- 6) col \<and> fc = flag_col (- 6) col) \<or>
          (n = c @ s8 \<and> any_eq (- 8) col \<and> fc = flag_col (- 8) col)"
      by (auto simp: banderas_de_mem)
    from d g have "(n = c @ s6 \<and> any_eq (- 6) col \<and> get_col t' n = Some (flag_col (- 6) col) \<and>
              Flag True \<in> set (snd (flag_col (- 6) col))) \<or>
           (n = c @ s8 \<and> any_eq (- 8) col \<and> get_col t' n = Some (flag_col (- 8) col) \<and>
              Flag True \<in> set (snd (flag_col (- 8) col)))"
      by (auto simp: flag_col_true)
    with c col show ?thesis by blast
  qed
qed

lemma aplicar_no_code:
  assumes "returned (aplicar ad R h df cols m vb r) = Inr t'" "get_col (h ! df) c = Some col"
    "\<forall>s\<in>set (codigos R). \<not> any_eq s col"
  shows "get_col t' c = Some col"
  using aplicar_kept[OF assms(1)] assms(2,3) by (rule frame_kept_no_code)

subsection \<open>Calls that return\<close>

lemma select_number_labels: "c \<in> set (select_number t) \<Longrightarrow> get_col t c \<noteq> None"
  by (auto simp: select_number_def get_col_def map_of_eq_None_iff intro: rev_image_eqI)

lemma select_number_get:
  assumes "distinct (labels t)" "c \<in> set (select_number t)"
  shows "\<exists>cells. get_col t c = Some (Number, cells) \<and> (c, (Number, cells)) \<in> set (columns t)"
proof -
  from assms(2) obtain col where m: "(c, col) \<in> set (columns t)" and n: "fst col = Number"
    by (auto simp: select_number_def)
  from assms(1) m have "get_col t c = Some col"
    by (simp add: labels_def get_col_def)
  with m n show ?thesis by (cases col) auto
qed

lemma conforme_no_text: "conforme (Number, cells) \<Longrightarrow> \<forall>v\<in>set cells. \<forall>s. v \<noteq> Str s"
  by (auto simp: list_all_iff split: cell.splits)

lemma imputar_total:
  assumes "\<forall>v\<in>set (snd col). \<forall>s. v \<noteq> Str s" "\<forall>mk v. ad mk col v"
  shows "\<exists>col'. imputar ad m vb col = Inr col'"
proof (cases "imputar ad m vb col")
  case (Inl e)
  from imputar_error[OF Inl] assms show ?thesis by blast
next
  case (Inr col')
  then show ?thesis by blast
qed

lemma imputar_no_text:
  assumes "imputar ad m vb col = Inr col'" "\<forall>v\<in>set (snd col). \<forall>s. v \<noteq> Str s"
  shows "\<forall>v\<in>set (snd col'). \<forall>s. v \<noteq> Str s"
proof -
  have f: "float_cell vb \<noteq> Str s" "Str s \<noteq> float_cell vb" for s
    by (cases vb; simp)+
  from assms show ?thesis
    by (fastforce simp: imputar_def asignar_def Let_def loc_set_mask f split: if_splits sum.splits)
qed

lemma conf_loop_total:
  assumes ad: "\<forall>mk col v. ad mk col v"
  shows "\<forall>c\<in>set cs. \<exists>col. get_col t c = Some col \<and> (\<forall>v\<in>set (snd col). \<forall>s. v \<noteq> Str s) \<Longrightarrow>
   fst (confidencial_loop ad m vb t cs) = None"
proof (induction cs arbitrary: t)
  case Nil
  then show ?case by simp
next
  case (Cons c cs)
  from Cons.prems obtain col where col: "get_col t c = Some col"
    and nt: "\<forall>v\<in>set (snd col). \<forall>s. v \<noteq> Str s" by auto
  from imputar_total[OF nt] ad obtain col' where i: "imputar ad m vb col = Inr col'" by blast
  have "\<exists>col. get_col (set_col t c col') c' = Some col \<and> (\<forall>v\<in>set (snd col). \<forall>s. v \<noteq> Str s)"
    if "c' \<in> set cs" for c'
  proof (cases "c' = c")
    case True
    with imputar_no_text[OF i nt] show ?thesis by (simp add: get_col_set_col)
  next
    case False
    with Cons.prems that show ?thesis by (simp add: get_col_set_col)
  qed
  then have "fst (confidencial_loop ad m vb (set_col t c col') cs) = None"
    by (intro Cons.IH) blast
  with col i show ?case by simp
qed

lemma na_frame_total: "\<exists>t'. no_aplica_frame t None r = (None, t')"
proof -
  have all: "\<forall>c\<in>set (cols_proc t None). get_col t c \<noteq> None"
    by (simp add: cols_proc_def select_number_labels)
  from cols_con_total[OF this] obtain cs where cs: "cols_con (- 6) t (cols_proc t None) = Inr cs"
    by blast
  have "\<forall>c\<in>set cs. get_col t c \<noteq> None"
    using cols_con_Inr[OF cs] by auto
  from na_loop_ok[OF this, of r] cs show ?thesis
    by (cases "no_aplica_loop r t cs") (simp add: no_aplica_frame_def)
qed

lemma conf_frame_total:
  assumes "distinct (labels t)" "\<forall>p\<in>set (columns t). conforme (snd p)"
    and ad: "\<forall>mk col v. ad mk col v"
  shows "\<exists>t'. confidencial_frame ad t None m vb = (None, t')"
proof -
  have all: "\<forall>c\<in>set (cols_proc t None). get_col t c \<noteq> None"
    by (simp add: cols_proc_def select_number_labels)
  from cols_con_total[OF this] obtain cs where cs: "cols_con (- 8) t (cols_proc t None) = Inr cs"
    by blast
  have "\<exists>col. get_col t c = Some col \<and> (\<forall>v\<in>set (snd col). \<forall>s. v \<noteq> Str s)" if "c \<in> set cs" for c
  proof -
    from that cols_con_subset[OF cs] have "c \<in> set (select_number t)"
      by (auto simp: cols_proc_def)
    from select_number_get[OF assms(1) this] obtain cells where
      g: "get_col t c = Some (Number, cells)" and m: "(c, (Number, cells)) \<in> set (columns t)" by blast
    from assms(2) m have "conforme (Number, cells)" by force
    from conforme_no_text[OF this] g show ?thesis by simp
  qed
  then have "fst (confidencial_loop ad m vb t cs) = None"
    by (intro conf_loop_total[OF ad]) blast
  with cs show ?thesis
    by (cases "confidencial_loop ad m vb t cs") (simp add: confidencial_frame_def)
qed

lemma replace_6_conforme: "conforme col \<Longrightarrow> fst col = Number \<Longrightarrow> conforme (replace_6 r col)"
  by (cases col; cases r) (auto simp: replace_6_def list_all_iff)

lemma na_frame_conforme:
  assumes "distinct (labels t)" "\<forall>p\<in>set (columns t). conforme (snd p)"
    and "no_aplica_frame t None r = (None, t')"
  shows "distinct (labels t') \<and> (\<forall>p\<in>set (columns t'). conforme (snd p))"
proof -
  have l: "labels t' = labels t"
    using na_frame_kept[OF assms(3)] by (rule frame_kept_labels)
  have "conforme col'" if m: "(c, col') \<in> set (columns t')" for c col'
  proof -
    from m l assms(1) have g': "get_col t' c = Some col'"
      by (simp add: labels_def get_col_def)
    have "get_col t c \<noteq> None"
    proof
      assume "get_col t c = None"
      from frame_kept_get_None[OF na_frame_kept[OF assms(3)] this] g' show False by simp
    qed
    then obtain col where g: "get_col t c = Some col" by (metis not_None_eq)
    then have "(c, col) \<in> set (columns t)" by (simp add: get_col_def map_of_SomeD)
    with assms(2) have cf: "conforme col" by force
    show ?thesis
    proof (cases "c \<in> set (cols_proc t None)")
      case True
      then have "c \<in> set (select_number t)" by (simp add: cols_proc_def)
      from select_number_get[OF assms(1) this] g have "fst col = Number" by auto
      with na_frame_get[OF assms(3) g] g' True cf show ?thesis
        by (simp add: replace_6_conforme)
    next
      case False
      with na_frame_get[OF assms(3) g] g' cf show ?thesis by simp
    qed
  qed
  with l assms(1) show ?thesis by auto
qed

lemma marcar_loop_total:
  "\<forall>c\<in>set cs. c \<in> set (labels t) \<Longrightarrow> fst (marcar_loop s6 s8 t cs) = None"
proof (induction cs arbitrary: t)
  case Nil
  then show ?case by simp
next
  case (Cons c cs)
  from Cons.prems obtain col where col: "get_col t c = Some col"
    using get_col_None_iff[of t c] by auto
  obtain t1 where p: "marcar_paso s6 s8 t c = (None, t1)"
    by (simp add: marcar_paso_Some[OF col])
  have "\<forall>c\<in>set cs. c \<in> set (labels t1)"
    using Cons.prems marcar_paso_labels[OF p] by auto
  from Cons.IH[OF this] p show ?case by simp
qed

text \<open>
  With the default selection \<open>tratar_no_aplica\<close> and \<open>marcar_censurados\<close> return on every
  frame, and the other two resolvers return on every frame as pandas builds it when the
  method is known and pandas carries out every assignment: the hypothesis that a call
  returns, in the claims below, excludes an explicit selection with a missing name, a
  statistic on a column that holds a text and an assignment that pandas refuses,
  nothing else.
\<close>

lemma resolver_returns:
  assumes "wf_table (h ! df)" "m \<in> set METODOS_CONF" and ad: "\<forall>mk col v. ad mk col v"
  shows "\<exists>t'. returned (aplicar ad R h df None m vb r) = Inr t'"
proof -
  from assms(1) have d: "distinct (labels (h ! df))" and c: "\<forall>p\<in>set (columns (h ! df)). conforme (snd p)"
    by (auto simp: wf_table_def list_all_iff)
  obtain t1 where n: "no_aplica_frame (h ! df) None r = (None, t1)"
    using na_frame_total by blast
  from na_frame_conforme[OF d c n] conf_frame_total[OF _ _ ad] obtain t2 where
    "confidencial_frame ad t1 None m vb = (None, t2)" by blast
  with n conf_frame_total[OF d c ad, of m vb] assms(2) show ?thesis
    by (cases R) (auto simp: na_returned conf_returned censurados_returned)
qed

lemma marcar_returns: "\<exists>t'. returned (marcar_censurados h df None s6 s8) = Inr t'"
proof -
  have "\<forall>c\<in>set (cols_proc (h ! df) None). c \<in> set (labels (h ! df))"
    using select_number_labels[of _ "h ! df"] get_col_None_iff[of "h ! df"]
    by (auto simp: cols_proc_def)
  from marcar_loop_total[OF this, of s6 s8] show ?thesis
    by (cases "marcar_loop s6 s8 (h ! df) (cols_proc (h ! df) None)")
      (simp add: marcar_returned marcar_frame_def)
qed

section \<open>The claims\<close>

subsection \<open>C1: the median on the scenario column\<close>

text \<open>
  Claim C1, amended. On the frame with the single column \<open>pop = [-6, -8, 10, -6, 5]\<close>,
  \<open>tratar_confidencial\<close> with the method \<open>mediana\<close> and the other arguments at their
  defaults takes the median of the eligible values \<open>10\<close> and \<open>5\<close>, which is \<open>7.5\<close>, and
  assigns it to the one row that holds \<open>-8\<close>. When pandas carries out that assignment (a
  float64 column, or pandas 2) the call returns a new frame with the column
  \<open>[-6, 7.5, 10, -6, 5]\<close>: only the cell that held \<open>-8\<close> is replaced, and the last cell
  keeps its \<open>5\<close>. When pandas refuses it (an int64 column under pandas 3) the call raises
  \<open>TypeError\<close>, and the copy it leaves behind is unchanged.
\<close>

theorem mediana_pop:
  "valores_validos (map (eq_num (- 8)) pop_cells) pop_cells = Inr [Num 10, Num 5] \<and>
   median [10, 5] = 15 / 2 \<and>
   tratar_confidencial admite [pop_df] 0 None ''mediana'' (Some 3) =
     (if admite [False, True, False, False, False] (Number, pop_cells) (Num (15 / 2))
      then (Inr 1, [pop_df, \<lparr>nrows = 5, columns =
              [(''pop'', (Number, [Num (- 6), Num (15 / 2), Num 10, Num (- 6), Num 5]))]\<rparr>])
      else (Inl TypeError, [pop_df, pop_df]))"
  by (simp add: eval_defs)

text \<open>The two cases, on a float64 column and on an int64 column under pandas 3.\<close>

theorem mediana_pop_witness:
  "tratar_confidencial admite_siempre [pop_df] 0 None ''mediana'' (Some 3) =
     (Inr 1, [pop_df, \<lparr>nrows = 5, columns =
        [(''pop'', (Number, [Num (- 6), Num (15 / 2), Num 10, Num (- 6), Num 5]))]\<rparr>]) \<and>
   tratar_confidencial admite_entero [pop_df] 0 None ''mediana'' (Some 3) =
     (Inl TypeError, [pop_df, pop_df])"
proof -
  have a: "\<not> admite_entero [False, True, False, False, False] (Number, pop_cells) (Num (15 / 2))"
    by code_simp
  from mediana_pop[of admite_siempre] mediana_pop[of admite_entero] a show ?thesis
    by (simp add: admite_siempre_def)
qed

text \<open>
  The column \<open>[-6, 7.5, 10, -6, 7.5]\<close> that the specification gives for this call is not
  returned in either case.
\<close>

theorem mediana_pop_counterexample:
  "returned (tratar_confidencial admite_siempre [pop_df] 0 None ''mediana'' (Some 3)) \<noteq>
     Inr \<lparr>nrows = 5, columns =
       [(''pop'', (Number, [Num (- 6), Num (15 / 2), Num 10, Num (- 6), Num (15 / 2)]))]\<rparr> \<and>
   returned (tratar_confidencial admite_entero [pop_df] 0 None ''mediana'' (Some 3)) \<noteq>
     Inr \<lparr>nrows = 5, columns =
       [(''pop'', (Number, [Num (- 6), Num (15 / 2), Num 10, Num (- 6), Num (15 / 2)]))]\<rparr>"
  by code_simp

subsection \<open>C2: the mean and the median\<close>

text \<open>
  Claim C2. When \<open>tratar_confidencial\<close> returns with the method \<open>mediana\<close> or \<open>media\<close>,
  every column it treats (a column of the selection that holds \<open>-8\<close>) comes back with
  each \<open>-8\<close> replaced by the statistic of the specification and every other cell as it
  was: the statistic is taken over exactly the values of that column that are not \<open>-6\<close>,
  not \<open>-8\<close> and not negative (the list the code filters equals that list); it is \<open>0\<close>
  when there is no such value; the mean is rounded to one decimal and the median is not
  rounded.
\<close>

theorem estadistico_confidencial:
  assumes "metodo = ''mediana'' \<or> metodo = ''media''"
    and "returned (tratar_confidencial admite h df cols metodo valor_bajo) = Inr t'"
    and "c \<in> set (cols_proc (h ! df) cols)" and "get_col (h ! df) c = Some col"
    and "any_eq (- 8) col"
  shows "get_col t' c =
           Some (fst col,
             map (\<lambda>v. if eq_num (- 8) v then Num (imputacion_spec metodo (snd col)) else v) (snd col)) \<and>
         (\<exists>vv. valores_validos (map (eq_num (- 8)) (snd col)) (snd col) = Inr vv \<and>
               map valor vv = elegibles_spec (snd col))"
proof -
  from assms(2) have fr: "confidencial_frame admite (h ! df) cols metodo valor_bajo = (None, t')"
    by (simp add: conf_returned)
  from conf_frame_get[OF fr assms(4)] assms(3,5) obtain col' where
    i: "imputar admite metodo valor_bajo col = Inr col'" and g: "get_col t' c = Some col'"
    by auto
  note st = imputar_stat[OF assms(1) i]
  have "valores_validos (map (eq_num (- 8)) (snd col)) (snd col) =
          Inr (filter (\<lambda>v. \<not> eq_num (- 8) v \<and> ge0 v = Inr True) (snd col))"
    using st(2) by (rule valores_validos_total)
  then show ?thesis using st(1) g by (simp add: validos_elegibles)
qed

theorem estadistico_confidencial_witness:
  "returned (tratar_confidencial admite_siempre [neg_df] 0 None ''media'' (Some 3)) =
     Inr \<lparr>nrows = 6, columns = [(''x'', (Number, [Num 1, Num (17 / 10), Num 2, Num 2, Num (- 3), NaN]))]\<rparr> \<and>
   ''x'' \<in> set (cols_proc ([neg_df] ! 0) None) \<and>
   get_col ([neg_df] ! 0) ''x'' = Some (Number, [Num 1, Num (- 8), Num 2, Num 2, Num (- 3), NaN]) \<and>
   any_eq (- 8) (Number, [Num 1, Num (- 8), Num 2, Num 2, Num (- 3), NaN]) \<and>
   elegibles_spec [Num 1, Num (- 8), Num 2, Num 2, Num (- 3), NaN] = [1, 2, 2] \<and>
   imputacion_spec ''media'' [Num 1, Num (- 8), Num 2, Num 2, Num (- 3), NaN] = 17 / 10"
proof -
  have a: "''media'' = ''mediana'' \<or> ''media'' = ''media''"
    by simp
  have r: "returned (tratar_confidencial admite_siempre [neg_df] 0 None ''media'' (Some 3)) =
     Inr \<lparr>nrows = 6, columns = [(''x'', (Number, [Num 1, Num (17 / 10), Num 2, Num 2, Num (- 3), NaN]))]\<rparr>"
    by code_simp
  have m: "''x'' \<in> set (cols_proc ([neg_df] ! 0) None)"
    "get_col ([neg_df] ! 0) ''x'' = Some (Number, [Num 1, Num (- 8), Num 2, Num 2, Num (- 3), NaN])"
    "any_eq (- 8) (Number, [Num 1, Num (- 8), Num 2, Num 2, Num (- 3), NaN])"
    by (simp_all add: eval_defs)
  have e: "elegibles_spec [Num 1, Num (- 8), Num 2, Num 2, Num (- 3), NaN] = [1, 2, 2]"
    by (simp add: elegibles_spec_def)
  from estadistico_confidencial[OF a r m] r m e show ?thesis
    by (simp add: get_col_def)
qed

subsection \<open>C3: an unknown method\<close>

text \<open>
  Claim C3. For every store, every input frame, every column selection and every method
  string that is not one of \<open>nan\<close>, \<open>cero\<close>, \<open>mediana\<close>, \<open>media\<close>, \<open>valor_bajo\<close>,
  \<open>tratar_confidencial\<close> raises \<open>ValueError\<close> and leaves the store exactly as it was: no
  copy has been made, no frame has been read (the outcome does not depend on the frame or on
  the selection), and the input frame is unchanged.
\<close>

theorem metodo_invalido:
  "metodo \<notin> set METODOS_CONF \<Longrightarrow>
   tratar_confidencial admite h df cols metodo valor_bajo = (Inl ValueError, h)"
  by (simp add: tratar_confidencial_def)

theorem metodo_invalido_witness:
  "''promedio'' \<notin> set METODOS_CONF \<and>
   tratar_confidencial admite_siempre [pop_df] 0 (Some [''otra'']) ''promedio'' (Some 3) = (Inl ValueError, [pop_df])"
  using metodo_invalido[of "''promedio''" admite_siempre "[pop_df]" 0 "Some [''otra'']" "Some 3"]
  by (simp add: METODOS_CONF_def)

subsection \<open>C4: replacing \<open>-6\<close> twice\<close>

text \<open>
  Claim C4. For every frame, every column selection and every replacement value, when
  \<open>tratar_no_aplica\<close> returns a frame, applying it again to that frame with the same
  selection and the same replacement returns a frame equal to it. The reason the claim
  gives holds where the function works: unless the replacement is itself \<open>-6\<close>, no cell of
  a column of the selection holds \<open>-6\<close> after the first pass.
\<close>

theorem no_aplica_idempotente:
  assumes "tratar_no_aplica h df cols reemplazo = (Inr r1, h1)"
  shows "returned (tratar_no_aplica h1 r1 cols reemplazo) = Inr (h1 ! r1) \<and>
         (reemplazo \<noteq> Some (- 6) \<longrightarrow>
            (\<forall>c\<in>set (cols_proc (h1 ! r1) cols). \<forall>col.
               get_col (h1 ! r1) c = Some col \<longrightarrow> \<not> any_eq (- 6) col))"
proof -
  from assms obtain t1 where fr: "no_aplica_frame (h ! df) cols reemplazo = (None, t1)"
    and r1: "r1 = length h" and h1: "h1 = h @ [t1]"
    by (auto simp: na_call split: prod.splits option.splits)
  have t1: "h1 ! r1 = t1" by (simp add: r1 h1)
  have "returned (tratar_no_aplica h1 r1 cols reemplazo) = Inr t1"
    using na_frame_idem[OF fr] by (simp add: na_returned t1)
  then show ?thesis
    using na_frame_clean[OF fr] by (auto simp: t1)
qed

theorem no_aplica_idempotente_witness:
  "tratar_no_aplica [tres_df] 0 None (Some 0) =
     (Inr 1, [tres_df, \<lparr>nrows = 5, columns =
       [(''nom'', (Object, [Str ''a'', Str ''b'', Str ''c'', Str ''d'', Str ''e''])),
        (''pop'', (Number, [Num 0, Num (- 8), Num 10, Num 0, Num 5])),
        (''viv'', (Number, [Num 4, Num (- 8), Num (- 8), Num 1, Num 0]))]\<rparr>]) \<and>
   returned (tratar_no_aplica (snd (tratar_no_aplica [tres_df] 0 None (Some 0))) 1 None (Some 0)) =
     Inr (snd (tratar_no_aplica [tres_df] 0 None (Some 0)) ! 1) \<and>
   \<not> any_eq (- 6) (the (get_col (snd (tratar_no_aplica [tres_df] 0 None (Some 0)) ! 1) ''pop''))"
proof -
  have c: "tratar_no_aplica [tres_df] 0 None (Some 0) =
     (Inr 1, [tres_df, \<lparr>nrows = 5, columns =
       [(''nom'', (Object, [Str ''a'', Str ''b'', Str ''c'', Str ''d'', Str ''e''])),
        (''pop'', (Number, [Num 0, Num (- 8), Num 10, Num 0, Num 5])),
        (''viv'', (Number, [Num 4, Num (- 8), Num (- 8), Num 1, Num 0]))]\<rparr>])"
    by (simp add: eval_defs)
  from no_aplica_idempotente[OF c] c show ?thesis
    by (simp add: get_col_def any_eq_def)
qed

subsection \<open>C5: columns without a code\<close>

text \<open>
  Claim C5, amended. A column that holds none of the codes a resolver treats comes back
  from that resolver unchanged. When the suffix for \<open>-6\<close> is not empty, every column of
  the frame \<open>marcar_censurados\<close> returns is either the input's column of that label,
  unchanged, or the flag of a column \<open>c\<close> of the selection, under the label of \<open>c\<close>
  followed by the suffix of a code that the input's column \<open>c\<close> holds at least once; such
  a flag is true somewhere. So a column without a code yields no flag column, and no flag
  column is false throughout. (With an empty suffix for \<open>-6\<close> the flag of \<open>-6\<close> replaces
  the source column, and the flag of \<open>-8\<close> computed next is false throughout.)
\<close>

theorem sin_codigo_sin_cambio:
  "(returned (aplicar admite R h df cols metodo valor_bajo reemplazo) = Inr t' \<and>
      get_col (h ! df) c = Some col \<and> (\<forall>s\<in>set (codigos R). \<not> any_eq s col)
      \<longrightarrow> get_col t' c = Some col) \<and>
   (sufijo_6 \<noteq> [] \<and> returned (marcar_censurados h df cols sufijo_6 sufijo_8) = Inr t''
      \<longrightarrow> (\<forall>n. get_col t'' n = get_col (h ! df) n \<or>
             (\<exists>c\<in>set (cols_proc (h ! df) cols). \<exists>col. get_col (h ! df) c = Some col \<and>
                ((n = c @ sufijo_6 \<and> any_eq (- 6) col \<and>
                    get_col t'' n = Some (flag_col (- 6) col) \<and>
                    Flag True \<in> set (snd (flag_col (- 6) col))) \<or>
                 (n = c @ sufijo_8 \<and> any_eq (- 8) col \<and>
                    get_col t'' n = Some (flag_col (- 8) col) \<and>
                    Flag True \<in> set (snd (flag_col (- 8) col)))))))"
  using aplicar_no_code[of admite R h df cols metodo valor_bajo reemplazo t' c col]
    marcar_frame_None_origen[of sufijo_6 "h ! df" cols sufijo_8 t'']
  by (simp add: marcar_returned)

theorem sin_codigo_sin_cambio_witness:
  "returned (aplicar admite_siempre NoAplica [neg_df] 0 None ''nan'' (Some 3) (Some 0)) = Inr neg_df \<and>
   get_col ([neg_df] ! 0) ''x'' = Some (Number, [Num 1, Num (- 8), Num 2, Num 2, Num (- 3), NaN]) \<and>
   \<not> any_eq (- 6) (Number, [Num 1, Num (- 8), Num 2, Num 2, Num (- 3), NaN]) \<and>
   ''_flag_na'' \<noteq> [] \<and>
   returned (marcar_censurados [neg_df] 0 None ''_flag_na'' ''_flag_conf'') =
     Inr \<lparr>nrows = 6, columns =
       [(''x'', (Number, [Num 1, Num (- 8), Num 2, Num 2, Num (- 3), NaN])),
        (''x_flag_conf'', (Boolean, [Flag False, Flag True, Flag False, Flag False, Flag False, Flag False]))]\<rparr> \<and>
   get_col neg_df ''x'' = Some (Number, [Num 1, Num (- 8), Num 2, Num 2, Num (- 3), NaN]) \<and>
   get_col \<lparr>nrows = 6, columns =
       [(''x'', (Number, [Num 1, Num (- 8), Num 2, Num 2, Num (- 3), NaN])),
        (''x_flag_conf'', (Boolean, [Flag False, Flag True, Flag False, Flag False, Flag False, Flag False]))]\<rparr>
     ''x_flag_na'' = None"
proof -
  let ?col = "(Number, [Num 1, Num (- 8), Num 2, Num 2, Num (- 3), NaN])"
  let ?t = "\<lparr>nrows = 6, columns =
       [(''x'', (Number, [Num 1, Num (- 8), Num 2, Num 2, Num (- 3), NaN])),
        (''x_flag_conf'', (Boolean, [Flag False, Flag True, Flag False, Flag False, Flag False, Flag False]))]\<rparr>"
  have a: "returned (aplicar admite_siempre NoAplica [neg_df] 0 None ''nan'' (Some 3) (Some 0)) = Inr neg_df"
    "get_col ([neg_df] ! 0) ''x'' = Some ?col" "\<not> any_eq (- 6) ?col" "''_flag_na'' \<noteq> []"
    "returned (marcar_censurados [neg_df] 0 None ''_flag_na'' ''_flag_conf'') = Inr ?t"
    by (simp_all add: eval_defs)
  have n: "get_col ?t ''x_flag_na'' = None" "get_col neg_df ''x_flag_na'' = None"
    by (simp_all add: eval_defs)
  from sin_codigo_sin_cambio[of admite_siempre NoAplica "[neg_df]" 0 None "''nan''" "Some 3" "Some 0" neg_df "''x''"
      ?col "''_flag_na''" "''_flag_conf''" ?t] a n
  show ?thesis by simp
qed

text \<open>
  With the empty suffix for \<open>-6\<close>, on the scenario column: the column \<open>pop_flag_conf\<close>
  is false in every row, although \<open>pop\<close> holds \<open>-8\<close>.
\<close>

theorem sin_codigo_sin_cambio_counterexample:
  "returned (marcar_censurados [pop_df] 0 None [] ''_flag_conf'') =
     Inr \<lparr>nrows = 5, columns =
       [(''pop'', (Boolean, [Flag True, Flag False, Flag False, Flag True, Flag False])),
        (''pop_flag_conf'', (Boolean, [Flag False, Flag False, Flag False, Flag False, Flag False]))]\<rparr>"
  by (simp add: eval_defs)

subsection \<open>C6: what a resolver keeps\<close>

text \<open>
  Claim C6, amended. For every frame with distinct labels and each of the three
  resolvers: the call changes no frame of the store it was given, the input among them,
  whether it returns or raises; and when it returns, its result is a frame at a new
  address, with the row count of the input, the same labels in the same order, each
  column with its dtype class and its length, and each cell with its value in its row
  unless the input cell holds a code the resolver treats. A non-numeric column comes back
  unchanged when the selection is the default one or does not name it. (A non-numeric
  column that an explicit selection names is treated like any other.)
\<close>

theorem resolver_conserva:
  assumes "df < length h" and "distinct (labels (h ! df))"
    and "aplicar admite R h df cols metodo valor_bajo reemplazo = (out, h')"
  shows "take (length h) h' = h \<and> h' ! df = h ! df \<and>
         (\<forall>res. out = Inr res \<longrightarrow>
            length h \<le> res \<and> res < length h' \<and>
            frame_kept (codigos R) (h ! df) (h' ! res) \<and>
            (\<forall>c col. get_col (h ! df) c = Some col \<and> fst col \<noteq> Number \<and>
                      (case cols of None \<Rightarrow> True | Some cs \<Rightarrow> c \<notin> set cs)
                      \<longrightarrow> get_col (h' ! res) c = Some col))"
proof -
  have st: "take (length h) h' = h"
    using aplicar_store[of h admite R df cols metodo valor_bajo reemplazo] assms(3) by simp
  have inp: "h' ! df = h ! df"
  proof -
    have "h' ! df = take (length h) h' ! df" using assms(1) by simp
    then show ?thesis by (simp add: st)
  qed
  have "length h \<le> res \<and> res < length h' \<and>
            frame_kept (codigos R) (h ! df) (h' ! res) \<and>
            (\<forall>c col. get_col (h ! df) c = Some col \<and> fst col \<noteq> Number \<and>
                      (case cols of None \<Rightarrow> True | Some cs \<Rightarrow> c \<notin> set cs)
                      \<longrightarrow> get_col (h' ! res) c = Some col)"
    if res: "out = Inr res" for res
  proof -
    have ret: "returned (aplicar admite R h df cols metodo valor_bajo reemplazo) = Inr (h' ! res)"
      using assms(3) res by (simp add: returned_def)
    have "length h \<le> res \<and> res < length h'"
      using aplicar_fresh[of admite R h df cols metodo valor_bajo reemplazo res] assms(3) res by simp
    moreover have "frame_kept (codigos R) (h ! df) (h' ! res)"
      using ret by (rule aplicar_kept)
    moreover have "get_col (h' ! res) c = Some col"
      if "get_col (h ! df) c = Some col" "fst col \<noteq> Number"
        "case cols of None \<Rightarrow> True | Some cs \<Rightarrow> c \<notin> set cs" for c col
      using aplicar_outside[OF ret not_selected[OF assms(2) that]] that(1) by simp
    ultimately show ?thesis by blast
  qed
  with st inp show ?thesis by blast
qed

theorem resolver_conserva_witness:
  "(0::nat) < length [tres_df] \<and> distinct (labels ([tres_df] ! 0)) \<and>
   aplicar admite_siempre Censurados [tres_df] 0 None ''cero'' (Some 3) (Some 0) =
     (Inr 2,
      [tres_df,
       \<lparr>nrows = 5, columns =
         [(''nom'', (Object, [Str ''a'', Str ''b'', Str ''c'', Str ''d'', Str ''e''])),
          (''pop'', (Number, [Num 0, Num (- 8), Num 10, Num 0, Num 5])),
          (''viv'', (Number, [Num 4, Num (- 8), Num (- 8), Num 1, Num 0]))]\<rparr>,
       \<lparr>nrows = 5, columns =
         [(''nom'', (Object, [Str ''a'', Str ''b'', Str ''c'', Str ''d'', Str ''e''])),
          (''pop'', (Number, [Num 0, Num 0, Num 10, Num 0, Num 5])),
          (''viv'', (Number, [Num 4, Num 0, Num 0, Num 1, Num 0]))]\<rparr>]) \<and>
   get_col tres_df ''nom'' = Some (Object, [Str ''a'', Str ''b'', Str ''c'', Str ''d'', Str ''e'']) \<and>
   frame_kept (codigos Censurados) tres_df
     (snd (aplicar admite_siempre Censurados [tres_df] 0 None ''cero'' (Some 3) (Some 0)) ! 2) \<and>
   get_col (snd (aplicar admite_siempre Censurados [tres_df] 0 None ''cero'' (Some 3) (Some 0)) ! 2) ''nom'' =
     Some (Object, [Str ''a'', Str ''b'', Str ''c'', Str ''d'', Str ''e''])"
proof -
  have a: "(0::nat) < length [tres_df]" "distinct (labels ([tres_df] ! 0))"
    by (simp_all add: tres_df_def labels_def)
  have c: "aplicar admite_siempre Censurados [tres_df] 0 None ''cero'' (Some 3) (Some 0) =
     (Inr 2,
      [tres_df,
       \<lparr>nrows = 5, columns =
         [(''nom'', (Object, [Str ''a'', Str ''b'', Str ''c'', Str ''d'', Str ''e''])),
          (''pop'', (Number, [Num 0, Num (- 8), Num 10, Num 0, Num 5])),
          (''viv'', (Number, [Num 4, Num (- 8), Num (- 8), Num 1, Num 0]))]\<rparr>,
       \<lparr>nrows = 5, columns =
         [(''nom'', (Object, [Str ''a'', Str ''b'', Str ''c'', Str ''d'', Str ''e''])),
          (''pop'', (Number, [Num 0, Num 0, Num 10, Num 0, Num 5])),
          (''viv'', (Number, [Num 4, Num 0, Num 0, Num 1, Num 0]))]\<rparr>])"
    by code_simp
  have g: "get_col tres_df ''nom'' = Some (Object, [Str ''a'', Str ''b'', Str ''c'', Str ''d'', Str ''e''])"
    by (simp add: get_col_def tres_df_def)
  from resolver_conserva[OF a c] a c g show ?thesis
    by simp
qed

text \<open>
  An object column named in the selection: the resolver replaces its \<open>-6\<close>, so the
  non-numeric columns of the result are not those of the input.
\<close>

theorem resolver_conserva_counterexample:
  "get_col obj_df ''clave'' = Some (Object, [Str ''a'', Num (- 6)]) \<and>
   returned (tratar_no_aplica [obj_df] 0 (Some [''clave'']) (Some 0)) =
     Inr \<lparr>nrows = 2, columns = [(''clave'', (Object, [Str ''a'', Num 0]))]\<rparr>"
  by (simp add: eval_defs)

subsection \<open>C7: where the flag columns go\<close>

text \<open>
  Claim C7. In the frame \<open>marcar_censurados\<close> returns, the labels of the input come first,
  in their order, and everything new comes after them. When the flag labels are new (they
  differ from each other and from the labels of the input), the returned frame is the
  input followed by the flag columns of the specification, in the order the selection is
  scanned, the flag of \<open>-6\<close> before the flag of \<open>-8\<close> for each source column, each flag
  true exactly in the rows where the source column holds the code. On the column
  \<open>pop = [-6, -8, 10, -6, 5]\<close> with the default suffixes the result is \<open>pop\<close>, then
  \<open>pop_flag_na = [T, F, F, T, F]\<close>, then \<open>pop_flag_conf = [F, T, F, F, F]\<close>.
\<close>

theorem marcar_orden:
  assumes "returned (marcar_censurados h df cols sufijo_6 sufijo_8) = Inr t'"
  shows "prefix (labels (h ! df)) (labels t') \<and>
         (distinct (labels (h ! df) @
             map fst (concat (map (banderas_de sufijo_6 sufijo_8 (h ! df)) (cols_proc (h ! df) cols))))
          \<longrightarrow> t' = (h ! df)\<lparr>columns := columns (h ! df) @
                 concat (map (banderas_de sufijo_6 sufijo_8 (h ! df)) (cols_proc (h ! df) cols))\<rparr>) \<and>
         returned (marcar_censurados [pop_df] 0 None ''_flag_na'' ''_flag_conf'') =
           Inr \<lparr>nrows = 5, columns =
             [(''pop'', (Number, [Num (- 6), Num (- 8), Num 10, Num (- 6), Num 5])),
              (''pop_flag_na'', (Boolean, [Flag True, Flag False, Flag False, Flag True, Flag False])),
              (''pop_flag_conf'', (Boolean, [Flag False, Flag True, Flag False, Flag False, Flag False]))]\<rparr>"
proof -
  from assms have fr: "marcar_frame (h ! df) cols sufijo_6 sufijo_8 = (None, t')"
    by (simp add: marcar_returned)
  then have "prefix (labels (h ! df)) (labels t')"
    using marcar_loop_prefix[of sufijo_6 sufijo_8 "h ! df" "cols_proc (h ! df) cols" None t']
    by (simp add: marcar_frame_def)
  moreover have "returned (marcar_censurados [pop_df] 0 None ''_flag_na'' ''_flag_conf'') =
           Inr \<lparr>nrows = 5, columns =
             [(''pop'', (Number, [Num (- 6), Num (- 8), Num 10, Num (- 6), Num 5])),
              (''pop_flag_na'', (Boolean, [Flag True, Flag False, Flag False, Flag True, Flag False])),
              (''pop_flag_conf'', (Boolean, [Flag False, Flag True, Flag False, Flag False, Flag False]))]\<rparr>"
    by (simp add: eval_defs)
  ultimately show ?thesis
    using marcar_frame_append[OF _ fr] by blast
qed

theorem marcar_orden_witness:
  "returned (marcar_censurados [tres_df] 0 None ''_flag_na'' ''_flag_conf'') =
     Inr \<lparr>nrows = 5, columns =
       [(''nom'', (Object, [Str ''a'', Str ''b'', Str ''c'', Str ''d'', Str ''e''])),
        (''pop'', (Number, [Num (- 6), Num (- 8), Num 10, Num (- 6), Num 5])),
        (''viv'', (Number, [Num 4, Num (- 8), Num (- 8), Num 1, Num (- 6)])),
        (''pop_flag_na'', (Boolean, [Flag True, Flag False, Flag False, Flag True, Flag False])),
        (''pop_flag_conf'', (Boolean, [Flag False, Flag True, Flag False, Flag False, Flag False])),
        (''viv_flag_na'', (Boolean, [Flag False, Flag False, Flag False, Flag False, Flag True])),
        (''viv_flag_conf'', (Boolean, [Flag False, Flag True, Flag True, Flag False, Flag False]))]\<rparr> \<and>
   distinct (labels ([tres_df] ! 0) @
      map fst (concat (map (banderas_de ''_flag_na'' ''_flag_conf'' ([tres_df] ! 0)) (cols_proc ([tres_df] ! 0) None)))) \<and>
   concat (map (banderas_de ''_flag_na'' ''_flag_conf'' tres_df) (cols_proc tres_df None)) =
       [(''pop_flag_na'', (Boolean, [Flag True, Flag False, Flag False, Flag True, Flag False])),
        (''pop_flag_conf'', (Boolean, [Flag False, Flag True, Flag False, Flag False, Flag False])),
        (''viv_flag_na'', (Boolean, [Flag False, Flag False, Flag False, Flag False, Flag True])),
        (''viv_flag_conf'', (Boolean, [Flag False, Flag True, Flag True, Flag False, Flag False]))] \<and>
   prefix (labels tres_df)
     [''nom'', ''pop'', ''viv'', ''pop_flag_na'', ''pop_flag_conf'', ''viv_flag_na'', ''viv_flag_conf'']"
proof -
  let ?t = "\<lparr>nrows = 5, columns =
       [(''nom'', (Object, [Str ''a'', Str ''b'', Str ''c'', Str ''d'', Str ''e''])),
        (''pop'', (Number, [Num (- 6), Num (- 8), Num 10, Num (- 6), Num 5])),
        (''viv'', (Number, [Num 4, Num (- 8), Num (- 8), Num 1, Num (- 6)])),
        (''pop_flag_na'', (Boolean, [Flag True, Flag False, Flag False, Flag True, Flag False])),
        (''pop_flag_conf'', (Boolean, [Flag False, Flag True, Flag False, Flag False, Flag False])),
        (''viv_flag_na'', (Boolean, [Flag False, Flag False, Flag False, Flag False, Flag True])),
        (''viv_flag_conf'', (Boolean, [Flag False, Flag True, Flag True, Flag False, Flag False]))]\<rparr>"
  have r: "returned (marcar_censurados [tres_df] 0 None ''_flag_na'' ''_flag_conf'') = Inr ?t"
    by (simp add: eval_defs)
  have b: "concat (map (banderas_de ''_flag_na'' ''_flag_conf'' tres_df) (cols_proc tres_df None)) =
       [(''pop_flag_na'', (Boolean, [Flag True, Flag False, Flag False, Flag True, Flag False])),
        (''pop_flag_conf'', (Boolean, [Flag False, Flag True, Flag False, Flag False, Flag False])),
        (''viv_flag_na'', (Boolean, [Flag False, Flag False, Flag False, Flag False, Flag True])),
        (''viv_flag_conf'', (Boolean, [Flag False, Flag True, Flag True, Flag False, Flag False]))]"
    by (simp add: banderas_de_def eval_defs)
  have d: "distinct (labels ([tres_df] ! 0) @
      map fst (concat (map (banderas_de ''_flag_na'' ''_flag_conf'' ([tres_df] ! 0)) (cols_proc ([tres_df] ! 0) None))))"
    using b by (simp add: labels_def tres_df_def)
  from marcar_orden[OF r] r b d show ?thesis
    by (simp add: labels_def)
qed

subsection \<open>C8: a frame without rows\<close>




subsection \<open>C9: a name that is no column\<close>

text \<open>
  Claim C9, amended. On a frame with distinct labels: when an explicit selection contains
  a name that is no label of the input frame, \<open>tratar_no_aplica\<close> and \<open>tratar_censurados\<close> raise \<open>KeyError\<close>, and so does
  \<open>tratar_confidencial\<close> when its method is valid (an unknown method raises \<open>ValueError\<close>
  first, see C3); the error is raised while the columns are scanned, after the copy has
  been made, and the copy is still as it was made. \<open>marcar_censurados\<close> raises \<open>KeyError\<close>
  in the same way, after the copy has been made, when the name is moreover not a name of
  the selection followed by one of the two suffixes. (A name that is the label of a flag
  column created earlier in the same scan is found, and the call returns. On a frame with
  a repeated label the test on that label raises \<open>ValueError\<close>, before the scan reaches
  the missing name.)
\<close>

theorem columna_ausente:
  assumes "distinct (labels (h ! df))" and "c \<in> set cs" and "get_col (h ! df) c = None"
  shows "tratar_no_aplica h df (Some cs) reemplazo = (Inl KeyError, h @ [h ! df]) \<and>
         (metodo \<in> set METODOS_CONF \<longrightarrow>
            tratar_confidencial admite h df (Some cs) metodo valor_bajo = (Inl KeyError, h @ [h ! df])) \<and>
         tratar_censurados admite h df (Some cs) metodo valor_bajo reemplazo = (Inl KeyError, h @ [h ! df]) \<and>
         (c \<notin> (\<lambda>x. x @ sufijo_6) ` set cs \<union> (\<lambda>x. x @ sufijo_8) ` set cs \<longrightarrow>
            (\<exists>t. marcar_censurados h df (Some cs) sufijo_6 sufijo_8 = (Inl KeyError, h @ [t])))"
proof -
  have cp: "c \<in> set (cols_proc (h ! df) (Some cs))" using assms(2) by (simp add: cols_proc_def)
  have na: "tratar_no_aplica h df (Some cs) reemplazo = (Inl KeyError, h @ [h ! df])"
    using na_frame_missing[OF cp assms(3)] by (simp add: na_call)
  have cf: "tratar_confidencial admite h df (Some cs) metodo valor_bajo = (Inl KeyError, h @ [h ! df])"
    if "metodo \<in> set METODOS_CONF"
    using conf_frame_missing[OF cp assms(3)] that by (simp add: conf_call)
  have ce: "tratar_censurados admite h df (Some cs) metodo valor_bajo reemplazo = (Inl KeyError, h @ [h ! df])"
    using na by (simp add: tratar_censurados_def)
  have mc: "\<exists>t. marcar_censurados h df (Some cs) sufijo_6 sufijo_8 = (Inl KeyError, h @ [t])"
    if "c \<notin> (\<lambda>x. x @ sufijo_6) ` set cs \<union> (\<lambda>x. x @ sufijo_8) ` set cs"
  proof -
    have "c \<notin> set (labels (h ! df))" using assms(3) by (simp add: get_col_None_iff)
    from marcar_loop_missing[OF assms(2) this that]
    show ?thesis
      by (cases "marcar_loop sufijo_6 sufijo_8 (h ! df) cs")
        (simp add: marcar_call marcar_frame_def cols_proc_def)
  qed
  from na cf ce mc show ?thesis by blast
qed

theorem columna_ausente_witness:
  "distinct (labels ([pop_df] ! 0)) \<and>
   ''otra'' \<in> set [''pop'', ''otra''] \<and> get_col ([pop_df] ! 0) ''otra'' = None \<and>
   ''cero'' \<in> set METODOS_CONF \<and>
   ''otra'' \<notin> (\<lambda>x. x @ ''_flag_na'') ` set [''pop'', ''otra''] \<union>
     (\<lambda>x. x @ ''_flag_conf'') ` set [''pop'', ''otra''] \<and>
   tratar_no_aplica [pop_df] 0 (Some [''pop'', ''otra'']) (Some 0) = (Inl KeyError, [pop_df, pop_df]) \<and>
   tratar_confidencial admite_siempre [pop_df] 0 (Some [''pop'', ''otra'']) ''cero'' (Some 3) = (Inl KeyError, [pop_df, pop_df]) \<and>
   tratar_censurados admite_siempre [pop_df] 0 (Some [''pop'', ''otra'']) ''cero'' (Some 3) (Some 0) =
     (Inl KeyError, [pop_df, pop_df]) \<and>
   fst (marcar_censurados [pop_df] 0 (Some [''pop'', ''otra'']) ''_flag_na'' ''_flag_conf'') = Inl KeyError"
proof -
  have a: "distinct (labels ([pop_df] ! 0))"
    "''otra'' \<in> set [''pop'', ''otra'']" "get_col ([pop_df] ! 0) ''otra'' = None"
    and m: "''cero'' \<in> set METODOS_CONF"
    and f: "''otra'' \<notin> (\<lambda>x. x @ ''_flag_na'') ` set [''pop'', ''otra''] \<union>
              (\<lambda>x. x @ ''_flag_conf'') ` set [''pop'', ''otra'']"
    by (simp_all add: eval_defs)
  from columna_ausente[OF a, of "Some 0" "''cero''" admite_siempre "Some 3" "''_flag_na''" "''_flag_conf''"]
    a m f
  show ?thesis by auto
qed

text \<open>
  The selection names \<open>pop_flag_na\<close>, which is no column of the input; the scan of \<open>pop\<close>
  creates it, and the call returns.
\<close>

theorem columna_ausente_counterexample:
  "get_col pop_df ''pop_flag_na'' = None \<and>
   marcar_censurados [pop_df] 0 (Some [''pop'', ''pop_flag_na'']) ''_flag_na'' ''_flag_conf'' =
     (Inr 1,
      [pop_df,
       \<lparr>nrows = 5, columns =
         [(''pop'', (Number, [Num (- 6), Num (- 8), Num 10, Num (- 6), Num 5])),
          (''pop_flag_na'', (Boolean, [Flag True, Flag False, Flag False, Flag True, Flag False])),
          (''pop_flag_conf'', (Boolean, [Flag False, Flag True, Flag False, Flag False, Flag False]))]\<rparr>])"
  by (simp add: eval_defs)

subsection \<open>C10: a column depends on itself alone\<close>

text \<open>
  Claim C10. For each of the three resolvers and every column \<open>c\<close> of the effective
  selection: when two calls with the same arguments, on two input frames that agree on
  the column \<open>c\<close>, both return, the frames they return agree on the column \<open>c\<close>,
  however the other columns of the inputs differ.
\<close>

theorem columna_independiente:
  assumes "returned (aplicar admite R h1 df1 cols metodo valor_bajo reemplazo) = Inr t1"
    and "returned (aplicar admite R h2 df2 cols metodo valor_bajo reemplazo) = Inr t2"
    and "c \<in> set (cols_proc (h1 ! df1) cols)" and "c \<in> set (cols_proc (h2 ! df2) cols)"
    and "get_col (h1 ! df1) c = get_col (h2 ! df2) c"
  shows "get_col t1 c = get_col t2 c"
proof (cases R)
  case NoAplica
  with assms show ?thesis by (auto simp: na_returned intro: na_frame_local)
next
  case Confidencial
  with assms show ?thesis by (auto simp: conf_returned intro: conf_frame_local)
next
  case Censurados
  with assms obtain u1 u2 where
    n1: "no_aplica_frame (h1 ! df1) cols reemplazo = (None, u1)" and c1: "confidencial_frame admite u1 cols metodo valor_bajo = (None, t1)" and
    n2: "no_aplica_frame (h2 ! df2) cols reemplazo = (None, u2)" and c2: "confidencial_frame admite u2 cols metodo valor_bajo = (None, t2)"
    by (auto simp: censurados_returned)
  have mid: "get_col u1 c = get_col u2 c"
    using n1 n2 assms(3-5) by (rule na_frame_local)
  have "cols_proc u1 cols = cols_proc (h1 ! df1) cols" "cols_proc u2 cols = cols_proc (h2 ! df2) cols"
    using na_frame_kept[OF n1] na_frame_kept[OF n2] by (simp_all add: frame_kept_cols_proc)
  with assms(3,4) have "c \<in> set (cols_proc u1 cols)" "c \<in> set (cols_proc u2 cols)" by simp_all
  with c1 c2 show ?thesis using mid by (rule conf_frame_local)
qed

theorem columna_independiente_witness:
  "returned (aplicar admite_siempre Censurados [pop_df] 0 None ''media'' (Some 3) (Some 0)) =
     Inr \<lparr>nrows = 5, columns = [(''pop'', (Number, [Num 0, Num (19 / 5), Num 10, Num 0, Num 5]))]\<rparr> \<and>
   ''pop'' \<in> set (cols_proc ([pop_df] ! 0) None) \<and> ''pop'' \<in> set (cols_proc ([tres_df] ! 0) None) \<and>
   get_col ([pop_df] ! 0) ''pop'' = get_col ([tres_df] ! 0) ''pop'' \<and>
   get_col (case returned (aplicar admite_siempre Censurados [tres_df] 0 None ''media'' (Some 3) (Some 0)) of Inr t \<Rightarrow> t) ''pop''
     = Some (Number, [Num 0, Num (19 / 5), Num 10, Num 0, Num 5])"
proof -
  have m: "''pop'' \<in> set (cols_proc ([pop_df] ! 0) None)" "''pop'' \<in> set (cols_proc ([tres_df] ! 0) None)"
    "get_col ([pop_df] ! 0) ''pop'' = get_col ([tres_df] ! 0) ''pop''"
    by (simp_all add: eval_defs)
  from columna_independiente[OF pop_censurados tres_censurados m] pop_censurados tres_censurados m
  show ?thesis by (simp add: get_col_def)
qed

end
